theory Spec2Isabelle
  imports Main "HOL-Library.Word"
begin

unbundle bit_operations_syntax

section \<open>Entries of the file-tree walk\<close>

text \<open>
  \<^verbatim>\<open>ls.c\<close> works on the \<^verbatim>\<open>FTSENT\<close> nodes handed out by the file-tree-walk
  primitive. The node kind \<^verbatim>\<open>fts_info\<close> is an enumeration; \<^verbatim>\<open>struct stat\<close> and
  \<^verbatim>\<open>FTSENT\<close> come from system headers, and their integer fields are given the widths of an
  LP64 system: \<^verbatim>\<open>off_t\<close> and \<^verbatim>\<open>blkcnt_t\<close> are signed 64-bit values (read with
  \<open>sint\<close>), \<^verbatim>\<open>ino_t\<close>, \<^verbatim>\<open>nlink_t\<close> and \<^verbatim>\<open>size_t\<close> unsigned 64-bit values,
  \<^verbatim>\<open>uid_t\<close>, \<^verbatim>\<open>gid_t\<close> and \<^verbatim>\<open>mode_t\<close> unsigned 32-bit values.
  A sibling list chained through \<^verbatim>\<open>fts_link\<close> is a HOL list; the null pointer is the
  empty list.
\<close>

datatype fts_info =
    FTS_D | FTS_DC | FTS_DEFAULT | FTS_DNR | FTS_DOT | FTS_DP | FTS_ERR
  | FTS_F | FTS_INIT | FTS_NS | FTS_NSOK | FTS_SL | FTS_SLNONE | FTS_W

record stat =
  st_mode :: "32 word"
  st_ino :: "64 word"
  st_nlink :: "64 word"
  st_uid :: "32 word"
  st_gid :: "32 word"
  st_size :: "64 word"
  st_blocks :: "64 word"

record ftsent =
  fts_info :: fts_info
  fts_name :: string
  fts_path :: string
  fts_namelen :: "64 word"
  fts_level :: int
  fts_errno :: int
  fts_number :: int
  fts_pointer :: "nat option"
  fts_statp :: stat

definition FTS_ROOTLEVEL :: int where
  "FTS_ROOTLEVEL = 0"

text \<open>
  The marker \<^verbatim>\<open>NO_PRINT\<close> is a macro of \<^verbatim>\<open>ls.h\<close>; no property below depends
  on its value.
\<close>

definition NO_PRINT :: int where
  "NO_PRINT = 1"

definition EXIT_FAILURE :: int where
  "EXIT_FAILURE = 1"

text \<open>The options handed to the walk primitive are distinct bits; they are kept as a set.\<close>

datatype fts_opt =
    FTS_COMFOLLOW | FTS_LOGICAL | FTS_NOCHDIR | FTS_NOSTAT | FTS_PHYSICAL
  | FTS_SEEDOT | FTS_WHITEOUT | FTS_NAMEONLY

section \<open>Run-wide state\<close>

text \<open>
  The two function pointers \<^verbatim>\<open>sortfcn\<close> and \<^verbatim>\<open>printfcn\<close> are values of an
  enumeration of the functions they can point to; both are null until \<^verbatim>\<open>ls_main\<close>
  has selected a function. The comparators and the renderers themselves live in other files:
  the meaning of a comparator pointer is the parameter \<open>cs\<close> of the functions below,
  and a call of a renderer is recorded with the descriptor it received.
\<close>

datatype sortfn =
    Null_sortfcn
  | Namecmp | Revnamecmp | Sizecmp | Revsizecmp
  | Acccmp | Revacccmp | Statcmp | Revstatcmp | Modcmp | Revmodcmp

datatype printfn =
    Null_printfcn | Printscol | Printacol | Printlong | Printstream | Printcol

type_synonym comparators = "sortfn \<Rightarrow> ftsent \<Rightarrow> ftsent \<Rightarrow> int"

text \<open>
  The long-format annotation \<^verbatim>\<open>NAMES\<close>; the flags pointer is only set under
  \<^verbatim>\<open>f_flags\<close>.
\<close>

record NAMES =
  user :: string
  group :: string
  flags :: "string option"

text \<open>
  The descriptor \<^verbatim>\<open>DISPLAY\<close>. The statistics are assigned only when
  \<^verbatim>\<open>needstats\<close> holds; otherwise those fields of the C structure stay uninitialised,
  which is \<open>None\<close> here. The header \<^verbatim>\<open>ls.h\<close> that declares the structure is
  not among the sources: each field has the type of the value \<^verbatim>\<open>display\<close> assigns
  to it.
\<close>

record DISPLAY_stats =
  bcfile :: int
  btotal :: "64 word"
  s_block :: nat
  s_flags :: int
  s_group :: int
  s_inode :: nat
  s_nlink :: nat
  s_size :: nat
  s_user :: int

record DISPLAY =
  d_list :: "ftsent list"
  d_entries :: int
  d_maxlen :: "64 word"
  d_stats :: "DISPLAY_stats option"

text \<open>
  What the run writes: every \<^verbatim>\<open>fprintf (stderr, ...)\<close> of \<^verbatim>\<open>ls.c\<close> is one
  constructor of \<open>err_event\<close> with the arguments of the call, every write to standard
  output one constructor of \<open>out_event\<close>.
\<close>

datatype err_event =
    Fts_open_failed string int
  | Node_error string int
  | Dir_cycle string
  | Malloc_failed
  | Fts_read_failed int

datatype out_event =
    Header string
  | Header_after_newline string
  | Rendered printfn DISPLAY

text \<open>
  The state is the global variables of \<^verbatim>\<open>ls.c\<close>, followed by the part of the world
  the code acts on: the two output channels, the heap of annotations (\<open>brk\<close> is the next
  fresh address) and the outcomes of the coming calls of \<^verbatim>\<open>malloc\<close>
  (\<open>False\<close> is a failed call; when the list is used up every call succeeds), and the
  paths for which \<^verbatim>\<open>fts_set (ftsp, p, FTS_SKIP)\<close> was issued.
\<close>

record state =
  blocksize :: int
  termwidth :: int
  sortkey :: int
  "output" :: int
  f_accesstime :: int
  f_column :: int
  f_columnacross :: int
  f_flags :: int
  f_inode :: int
  f_listdir :: int
  f_listdot :: int
  f_longform :: int
  f_newline :: int
  f_nonprint :: int
  f_nosort :: int
  f_numericonly :: int
  f_recursive :: int
  f_reversesort :: int
  f_sectime :: int
  f_singlecol :: int
  f_size :: int
  f_statustime :: int
  f_stream :: int
  f_dirname :: int
  f_type :: int
  f_typedir :: int
  f_whiteout :: int
  rval :: int
  printfcn :: printfn
  sortfcn :: sortfn
  stdout_log :: "out_event list"
  stderr_log :: "err_event list"
  heap :: "nat \<rightharpoonup> NAMES"
  brk :: nat
  malloc_script :: "bool list"
  fts_skip_log :: "string list"

definition BY_NAME :: int where "BY_NAME = 0"
definition BY_SIZE :: int where "BY_SIZE = 1"
definition BY_TIME :: int where "BY_TIME = 2"

section \<open>The master comparator\<close>

definition mastercmp :: "comparators \<Rightarrow> state \<Rightarrow> ftsent \<Rightarrow> ftsent \<Rightarrow> int" where
  "mastercmp cs g a b =
     (let a_info = fts_info a in
      if a_info = FTS_ERR then 0
      else
        let b_info = fts_info b in
        if b_info = FTS_ERR then 0
        else if a_info = FTS_NS \<or> b_info = FTS_NS then
          (if b_info \<noteq> FTS_NS then 1
           else if a_info \<noteq> FTS_NS then - 1
           else cs Namecmp a b)
        else if a_info \<noteq> b_info \<and> fts_level a = FTS_ROOTLEVEL \<and> f_listdir g = 0 then
          (if a_info = FTS_D then 1
           else if b_info = FTS_D then - 1
           else cs (sortfcn g) a b)
        else cs (sortfcn g) a b)"

section \<open>Library functions and the environment\<close>

text \<open>
  \<^verbatim>\<open>umaxtostr\<close> (gnulib \<^verbatim>\<open>inttostr\<close>) writes an unsigned number in decimal;
  \<^verbatim>\<open>strlen\<close> of its result is the number of digits.
\<close>

definition digit_char :: "nat \<Rightarrow> char" where
  "digit_char n = char_of (48 + n)"

fun umaxtostr :: "nat \<Rightarrow> string" where
  "umaxtostr n = (if n < 10 then [digit_char n] else umaxtostr (n div 10) @ [digit_char (n mod 10)])"

declare umaxtostr.simps [simp del]

text \<open>
  What the process reads from its environment: whether standard output is a terminal, the
  value \<^verbatim>\<open>atoi\<close> gives for \<^verbatim>\<open>COLUMNS\<close> when the variable is set, the column count
  of \<^verbatim>\<open>TIOCGWINSZ\<close> when the \<^verbatim>\<open>ioctl\<close> succeeds, the user id, and the two name
  lookups (\<open>None\<close> when the lookup returns a null pointer).
\<close>

record env =
  isatty_stdout :: bool
  getenv_COLUMNS :: "int option"
  ioctl_ws_col :: "nat option"
  getuid :: "32 word"
  getpwuid :: "32 word \<Rightarrow> string option"
  getgrgid :: "32 word \<Rightarrow> string option"

text \<open>
  The walk primitive. \<^verbatim>\<open>fts_open\<close> receives the root paths, the options and the
  comparator (\<open>None\<close> for a null comparator), and fails with an \<^verbatim>\<open>errno\<close> or
  returns a walk. The answers of an open walk are taken as they come: the sibling list
  \<^verbatim>\<open>fts_children\<close> returns before the first read, the nodes returned by the successive
  calls of \<^verbatim>\<open>fts_read\<close>, each with the list \<^verbatim>\<open>fts_children\<close> would return at that
  point for the given child options, and the value of \<^verbatim>\<open>errno\<close> once
  \<^verbatim>\<open>fts_read\<close> has returned the null pointer.
\<close>

record event =
  ev_node :: ftsent
  ev_children :: "fts_opt set \<Rightarrow> ftsent list"

record walk =
  root_list :: "ftsent list"
  events :: "event list"
  final_errno :: int

type_synonym fts = "string list \<Rightarrow> fts_opt set \<Rightarrow> (ftsent \<Rightarrow> ftsent \<Rightarrow> int) option \<Rightarrow> int + walk"

definition malloc :: "state \<Rightarrow> nat option \<times> state" where
  "malloc g =
     (case malloc_script g of
        [] \<Rightarrow> (Some (brk g), g\<lparr>brk := brk g + 1\<rparr>)
      | ok # rest \<Rightarrow>
          if ok then (Some (brk g), g\<lparr>brk := brk g + 1, malloc_script := rest\<rparr>)
          else (None, g\<lparr>malloc_script := rest\<rparr>))"

definition free :: "nat option \<Rightarrow> state \<Rightarrow> state" where
  "free ptr g = (case ptr of None \<Rightarrow> g | Some a \<Rightarrow> g\<lparr>heap := (heap g)(a := None)\<rparr>)"

section \<open>The display pass\<close>

text \<open>The local accumulators of \<^verbatim>\<open>display\<close>.\<close>

record agg =
  maxlen :: "64 word"
  maxblock :: "64 word"
  maxinode :: "64 word"
  maxnlink :: "64 word"
  maxsize :: "64 word"
  a_btotal :: "64 word"
  a_bcfile :: int
  maxuser :: int
  maxgroup :: int
  maxflags :: int
  entries :: int

definition agg0 :: agg where
  "agg0 = \<lparr>maxlen = 0, maxblock = 0, maxinode = 0, maxnlink = 0, maxsize = 0, a_btotal = 0,
           a_bcfile = 0, maxuser = 0, maxgroup = 0, maxflags = 0, entries = 0\<rparr>"

definition needstats :: "state \<Rightarrow> bool" where
  "needstats g = (f_inode g \<noteq> 0 \<or> f_longform g \<noteq> 0 \<or> f_size g \<noteq> 0)"

definition first_is_dot :: "string \<Rightarrow> bool" where
  "first_is_dot s = (case s of [] \<Rightarrow> False | c # _ \<Rightarrow> c = CHR ''.'')"

text \<open>
  The file-type tests of \<^verbatim>\<open>sys/stat.h\<close>: the type mask is octal 0170000, a character
  device is 0020000 and a block device 0060000.
\<close>

definition S_ISCHR :: "32 word \<Rightarrow> bool" where
  "S_ISCHR m = (m AND 0xF000 = 0x2000)"

definition S_ISBLK :: "32 word \<Rightarrow> bool" where
  "S_ISBLK m = (m AND 0xF000 = 0x6000)"

text \<open>The comparisons against each running maximum and the block total (lines 500 to 514).\<close>

definition measure_name :: "ftsent \<Rightarrow> agg \<Rightarrow> agg" where
  "measure_name cur a = (if fts_namelen cur > maxlen a then a\<lparr>maxlen := fts_namelen cur\<rparr> else a)"

definition measure_stat :: "stat \<Rightarrow> agg \<Rightarrow> agg" where
  "measure_stat sp a =
     (let a1 = (if sint (st_blocks sp) > sint (maxblock a) then a\<lparr>maxblock := st_blocks sp\<rparr> else a);
          a2 = (if st_ino sp > maxinode a1 then a1\<lparr>maxinode := st_ino sp\<rparr> else a1);
          a3 = (if st_nlink sp > maxnlink a2 then a2\<lparr>maxnlink := st_nlink sp\<rparr> else a2);
          a4 = (if sint (st_size sp) > sint (maxsize a3) then a3\<lparr>maxsize := st_size sp\<rparr> else a3)
      in a4\<lparr>a_btotal := a_btotal a4 + st_blocks sp\<rparr>)"

text \<open>Resolution of the owner and group names (lines 520 to 534).\<close>

definition user_of :: "env \<Rightarrow> state \<Rightarrow> stat \<Rightarrow> string" where
  "user_of env g sp =
     (case (if f_numericonly g = 0 then getpwuid env (st_uid sp) else None) of
        Some name \<Rightarrow> name
      | None \<Rightarrow> umaxtostr (unat (st_uid sp)))"

definition group_of :: "env \<Rightarrow> state \<Rightarrow> stat \<Rightarrow> string" where
  "group_of env g sp =
     (case (if f_numericonly g = 0 then getgrgid env (st_gid sp) else None) of
        Some name \<Rightarrow> name
      | None \<Rightarrow> umaxtostr (unat (st_gid sp)))"

text \<open>
  The long-format part of the loop body (lines 515 to 575). First the widths of the owner,
  group and flags columns are updated (lines 536 to 551); the flags string is the constant
  \<^verbatim>\<open>"-"\<close>.
\<close>

definition measure_owner :: "env \<Rightarrow> state \<Rightarrow> stat \<Rightarrow> agg \<Rightarrow> agg" where
  "measure_owner env g sp a =
     (let ulen = int (length (user_of env g sp));
          a1 = (if ulen > maxuser a then a\<lparr>maxuser := ulen\<rparr> else a);
          glen = int (length (group_of env g sp));
          a2 = (if glen > maxgroup a1 then a1\<lparr>maxgroup := glen\<rparr> else a1);
          flen = (if f_flags g \<noteq> 0 then int (length ''-'') else 0)
      in if f_flags g \<noteq> 0 \<and> flen > maxflags a2 then a2\<lparr>maxflags := flen\<rparr> else a2)"

definition measure_device :: "stat \<Rightarrow> agg \<Rightarrow> agg" where
  "measure_device sp a =
     (if S_ISCHR (st_mode sp) \<or> S_ISBLK (st_mode sp) then a\<lparr>a_bcfile := 1\<rparr> else a)"

text \<open>
  Then the annotation is allocated and filled, and the entry points to it. A failed
  allocation is \<open>Inl\<close>: the message, the failure status, and the return out of
  \<^verbatim>\<open>display\<close>.
\<close>

definition annotate :: "env \<Rightarrow> ftsent \<Rightarrow> agg \<Rightarrow> state \<Rightarrow> state + ftsent \<times> agg \<times> state" where
  "annotate env cur a g =
     (let sp = fts_statp cur;
          a1 = measure_owner env g sp a
      in case malloc g of
           (None, g1) \<Rightarrow>
             Inl (g1\<lparr>stderr_log := stderr_log g1 @ [Malloc_failed], rval := EXIT_FAILURE\<rparr>)
         | (Some np, g1) \<Rightarrow>
             let names = \<lparr>user = user_of env g sp, group = group_of env g sp,
                          flags = (if f_flags g \<noteq> 0 then Some ''-'' else None)\<rparr>
             in Inr (cur\<lparr>fts_pointer := Some np\<rparr>, measure_device sp a1,
                     g1\<lparr>heap := (heap g1)(np \<mapsto> names)\<rparr>))"

text \<open>
  One round of the loop over the sibling list (lines 467 to 578); \<open>p_null\<close> says that the
  parent pointer \<^verbatim>\<open>p\<close> is null, which is the list of the root arguments.
\<close>

definition count_entry :: "agg \<Rightarrow> agg" where
  "count_entry a = a\<lparr>entries := entries a + 1\<rparr>"

definition display_entry :: "env \<Rightarrow> bool \<Rightarrow> ftsent \<Rightarrow> agg \<Rightarrow> state \<Rightarrow> state + ftsent \<times> agg \<times> state" where
  "display_entry env p_null cur a g =
     (if fts_info cur = FTS_ERR \<or> fts_info cur = FTS_NS then
        Inr (cur\<lparr>fts_number := NO_PRINT\<rparr>, a,
             g\<lparr>stderr_log := stderr_log g @ [Node_error (fts_name cur) (fts_errno cur)], rval := 1\<rparr>)
      else if p_null \<and> fts_info cur = FTS_D \<and> f_listdir g = 0 then
        Inr (cur\<lparr>fts_number := NO_PRINT\<rparr>, a, g)
      else if \<not> p_null \<and> first_is_dot (fts_name cur) \<and> f_listdot g = 0 then
        Inr (cur\<lparr>fts_number := NO_PRINT\<rparr>, a, g)
      else
        let a1 = measure_name cur a in
        if needstats g then
          let a2 = measure_stat (fts_statp cur) a1 in
          if f_longform g \<noteq> 0 then
            (case annotate env cur a2 g of
               Inl g1 \<Rightarrow> Inl g1
             | Inr (cur1, a3, g1) \<Rightarrow> Inr (cur1, count_entry a3, g1))
          else Inr (cur, count_entry a2, g)
        else Inr (cur, count_entry a1, g))"

fun display_loop ::
  "env \<Rightarrow> bool \<Rightarrow> ftsent list \<Rightarrow> agg \<Rightarrow> state \<Rightarrow> ftsent list \<times> state + ftsent list \<times> agg \<times> state" where
  "display_loop env p_null [] a g = Inr ([], a, g)"
| "display_loop env p_null (cur # rest) a g =
     (case display_entry env p_null cur a g of
        Inl g1 \<Rightarrow> Inl (cur # rest, g1)
      | Inr (cur1, a1, g1) \<Rightarrow>
          (case display_loop env p_null rest a1 g1 of
             Inl (rest1, g2) \<Rightarrow> Inl (cur1 # rest1, g2)
           | Inr (rest1, a2, g2) \<Rightarrow> Inr (cur1 # rest1, a2, g2)))"

definition make_display :: "state \<Rightarrow> ftsent list \<Rightarrow> agg \<Rightarrow> DISPLAY" where
  "make_display g lst a =
     \<lparr>d_list = lst, d_entries = entries a, d_maxlen = maxlen a,
      d_stats =
        (if needstats g then
           Some \<lparr>bcfile = a_bcfile a, btotal = a_btotal a,
                 s_block = length (umaxtostr (unat (maxblock a))),
                 s_flags = maxflags a, s_group = maxgroup a,
                 s_inode = length (umaxtostr (unat (maxinode a))),
                 s_nlink = length (umaxtostr (unat (maxnlink a))),
                 s_size = length (umaxtostr (unat (maxsize a))),
                 s_user = maxuser a\<rparr>
         else None)\<rparr>"

fun free_annotations :: "ftsent list \<Rightarrow> state \<Rightarrow> state" where
  "free_annotations [] g = g"
| "free_annotations (cur # rest) g = free_annotations rest (free (fts_pointer cur) g)"

text \<open>
  \<^verbatim>\<open>display (p, list)\<close>. The result is the sibling list as the call leaves it (the
  entries are updated in place) and the new state.
\<close>

definition display :: "env \<Rightarrow> ftsent option \<Rightarrow> ftsent list \<Rightarrow> state \<Rightarrow> ftsent list \<times> state" where
  "display env p lst g =
     (if lst = [] then (lst, g)
      else
        case display_loop env (p = None) lst agg0 g of
          Inl (lst1, g1) \<Rightarrow> (lst1, g1)
        | Inr (lst1, a, g1) \<Rightarrow>
            if entries a = 0 then (lst1, g1)
            else
              let d = make_display g1 lst1 a;
                  g2 = g1\<lparr>stdout_log := stdout_log g1 @ [Rendered (printfcn g1) d], output := 1\<rparr>
              in if f_longform g2 \<noteq> 0 then (lst1, free_annotations lst1 g2) else (lst1, g2))"

section \<open>The traversal\<close>

definition traverse_event :: "env \<Rightarrow> int \<Rightarrow> fts_opt set \<Rightarrow> event \<Rightarrow> state \<Rightarrow> state" where
  "traverse_event env argc ch_options ev g =
     (let p = ev_node ev in
      if fts_info p = FTS_D then
        (if first_is_dot (fts_name p) \<and> fts_level p \<noteq> FTS_ROOTLEVEL \<and> f_listdot g = 0 then g
         else
           let g1 = (if output g \<noteq> 0 then
                       g\<lparr>stdout_log := stdout_log g @ [Header_after_newline (fts_path p)]\<rparr>
                     else if argc > 1 then
                       g\<lparr>stdout_log := stdout_log g @ [Header (fts_path p)], output := 1\<rparr>
                     else g);
               chp = ev_children ev ch_options;
               g2 = snd (display env (Some p) chp g1)
           in if f_recursive g2 = 0 \<and> chp \<noteq> [] then
                g2\<lparr>fts_skip_log := fts_skip_log g2 @ [fts_path p]\<rparr>
              else g2)
      else if fts_info p = FTS_DC then
        g\<lparr>stderr_log := stderr_log g @ [Dir_cycle (fts_name p)]\<rparr>
      else if fts_info p = FTS_DNR \<or> fts_info p = FTS_ERR then
        g\<lparr>stderr_log := stderr_log g @ [Node_error (fts_name p) (fts_errno p)], rval := 1\<rparr>
      else g)"

fun traverse_loop :: "env \<Rightarrow> int \<Rightarrow> fts_opt set \<Rightarrow> event list \<Rightarrow> state \<Rightarrow> state" where
  "traverse_loop env argc ch_options [] g = g"
| "traverse_loop env argc ch_options (ev # evs) g =
     traverse_loop env argc ch_options evs (traverse_event env argc ch_options ev g)"

definition compar :: "comparators \<Rightarrow> state \<Rightarrow> (ftsent \<Rightarrow> ftsent \<Rightarrow> int) option" where
  "compar cs g = (if f_nosort g \<noteq> 0 then None else Some (mastercmp cs g))"

definition traverse ::
  "comparators \<Rightarrow> env \<Rightarrow> fts \<Rightarrow> int \<Rightarrow> string list \<Rightarrow> fts_opt set \<Rightarrow> state \<Rightarrow> state" where
  "traverse cs env fts_open argc argv options g =
     (case fts_open argv options (compar cs g) of
        Inl errno \<Rightarrow>
          g\<lparr>stderr_log := stderr_log g @
               [Fts_open_failed (case argv of [] \<Rightarrow> [] | a # _ \<Rightarrow> a) errno],
            rval := EXIT_FAILURE\<rparr>
      | Inr ftsp \<Rightarrow>
          let g1 = snd (display env None (root_list ftsp) g) in
          if f_listdir g1 \<noteq> 0 then g1
          else
            let ch_options = (if f_recursive g1 = 0 \<and> FTS_NOSTAT \<in> options
                              then {FTS_NAMEONLY} else {});
                g2 = traverse_loop env argc ch_options (events ftsp) g1
            in if final_errno ftsp \<noteq> 0 then
                 g2\<lparr>stderr_log := stderr_log g2 @ [Fts_read_failed (final_errno ftsp)],
                    rval := EXIT_FAILURE\<rparr>
               else g2)"

section \<open>The entry point\<close>

text \<open>The assignments under the comment "Clear all settings made in any previous call".\<close>

definition clear_settings :: "state \<Rightarrow> state" where
  "clear_settings g =
     g\<lparr>output := 0,
        f_accesstime := 0, f_column := 0, f_columnacross := 0, f_flags := 0,
        f_inode := 0, f_listdir := 0, f_listdot := 0, f_longform := 0,
        f_newline := 0, f_nonprint := 0, f_nosort := 0, f_numericonly := 0,
        f_recursive := 0, f_reversesort := 0, f_sectime := 0, f_singlecol := 0,
        f_size := 0, f_statustime := 0, f_stream := 0, f_dirname := 0,
        f_type := 0, f_typedir := 0, f_whiteout := 0\<rparr>"

definition terminal_defaults :: "env \<Rightarrow> state \<Rightarrow> state" where
  "terminal_defaults env g =
     (if isatty_stdout env then
        (let g1 = (case getenv_COLUMNS env of
                     Some n \<Rightarrow> g\<lparr>termwidth := n\<rparr>
                   | None \<Rightarrow>
                       (case ioctl_ws_col env of
                          Some c \<Rightarrow> if c > 0 then g\<lparr>termwidth := int c\<rparr> else g
                        | None \<Rightarrow> g))
         in g1\<lparr>f_column := 1, f_nonprint := 1\<rparr>)
      else g\<lparr>f_singlecol := 1\<rparr>)"

text \<open>
  One round of the option loop: the character is what \<^verbatim>\<open>getopt\<close> returned, and
  \<open>None\<close> is the default case, which returns \<^verbatim>\<open>usage ()\<close>. Option \<^verbatim>\<open>a\<close> falls
  through into \<^verbatim>\<open>A\<close>.
\<close>

definition ls_option :: "char \<Rightarrow> fts_opt set \<Rightarrow> state \<Rightarrow> (fts_opt set \<times> state) option" where
  "ls_option ch fo g =
     (
      if ch = CHR ''1'' then
        Some (fo, g\<lparr>f_singlecol := 1, f_column := 0, f_columnacross := 0, f_longform := 0, f_stream := 0\<rparr>)
      else if ch = CHR ''C'' then
        Some (fo, g\<lparr>f_column := 1, f_longform := 0, f_columnacross := 0, f_singlecol := 0, f_stream := 0\<rparr>)
      else if ch = CHR ''l'' then
        Some (fo, g\<lparr>f_longform := 1, f_numericonly := 0, f_column := 0, f_columnacross := 0,
                  f_singlecol := 0, f_stream := 0\<rparr>)
      else if ch = CHR ''m'' then
        Some (fo, g\<lparr>f_stream := 1, f_column := 0, f_columnacross := 0, f_longform := 0, f_singlecol := 0\<rparr>)
      else if ch = CHR ''x'' then
        Some (fo, g\<lparr>f_columnacross := 1, f_column := 0, f_longform := 0, f_singlecol := 0, f_stream := 0\<rparr>)
      else if ch = CHR ''n'' then
        Some (fo, g\<lparr>f_longform := 1, f_numericonly := 1, f_column := 0, f_columnacross := 0,
                  f_singlecol := 0, f_stream := 0\<rparr>)
      else if ch = CHR ''c'' then
        Some (fo, g\<lparr>f_statustime := 1, f_accesstime := 0\<rparr>)
      else if ch = CHR ''u'' then
        Some (fo, g\<lparr>f_accesstime := 1, f_statustime := 0\<rparr>)
      else if ch = CHR ''F'' then
        Some (fo, g\<lparr>f_type := 1\<rparr>)
      else if ch = CHR ''L'' then
        Some (insert FTS_LOGICAL (fo - {FTS_PHYSICAL}), g)
      else if ch = CHR ''R'' then
        Some (fo, g\<lparr>f_recursive := 1\<rparr>)
      else if ch = CHR ''a'' then
        Some (insert FTS_SEEDOT fo, g\<lparr>f_listdot := 1\<rparr>)
      else if ch = CHR ''A'' then
        Some (fo, g\<lparr>f_listdot := 1\<rparr>)
      else if ch = CHR ''d'' then
        Some (fo, g\<lparr>f_listdir := 1, f_recursive := 0\<rparr>)
      else if ch = CHR ''f'' then
        Some (fo, g\<lparr>f_nosort := 1\<rparr>)
      else if ch = CHR ''g'' then
        Some (fo, g)
      else if ch = CHR ''i'' then
        Some (fo, g\<lparr>f_inode := 1\<rparr>)
      else if ch = CHR ''k'' then
        Some (fo, g\<lparr>blocksize := 1024\<rparr>)
      else if ch = CHR ''o'' then
        Some (fo, g\<lparr>f_flags := 1\<rparr>)
      else if ch = CHR ''p'' then
        Some (fo, g\<lparr>f_typedir := 1\<rparr>)
      else if ch = CHR ''q'' then
        Some (fo, g\<lparr>f_nonprint := 1\<rparr>)
      else if ch = CHR ''r'' then
        Some (fo, g\<lparr>f_reversesort := 1\<rparr>)
      else if ch = CHR ''S'' then
        Some (fo, g\<lparr>sortkey := BY_SIZE\<rparr>)
      else if ch = CHR ''s'' then
        Some (fo, g\<lparr>f_size := 1\<rparr>)
      else if ch = CHR ''T'' then
        Some (fo, g\<lparr>f_sectime := 1\<rparr>)
      else if ch = CHR ''t'' then
        Some (fo, g\<lparr>sortkey := BY_TIME\<rparr>)
      else if ch = CHR ''W'' then
        Some (fo, g\<lparr>f_whiteout := 1\<rparr>)
      else None)"

fun getopt_loop :: "char list \<Rightarrow> fts_opt set \<Rightarrow> state \<Rightarrow> state + fts_opt set \<times> state" where
  "getopt_loop [] fo g = Inr (fo, g)"
| "getopt_loop (ch # chs) fo g =
     (case ls_option ch fo g of
        None \<Rightarrow> Inl g
      | Some (fo1, g1) \<Rightarrow> getopt_loop chs fo1 g1)"

definition select_sortfcn :: "state \<Rightarrow> state" where
  "select_sortfcn g =
     (if f_reversesort g \<noteq> 0 then
        (if sortkey g = BY_NAME then g\<lparr>sortfcn := Revnamecmp\<rparr>
         else if sortkey g = BY_SIZE then g\<lparr>sortfcn := Revsizecmp\<rparr>
         else if sortkey g = BY_TIME then
           (if f_accesstime g \<noteq> 0 then g\<lparr>sortfcn := Revacccmp\<rparr>
            else if f_statustime g \<noteq> 0 then g\<lparr>sortfcn := Revstatcmp\<rparr>
            else g\<lparr>sortfcn := Revmodcmp\<rparr>)
         else g)
      else
        (if sortkey g = BY_NAME then g\<lparr>sortfcn := Namecmp\<rparr>
         else if sortkey g = BY_SIZE then g\<lparr>sortfcn := Sizecmp\<rparr>
         else if sortkey g = BY_TIME then
           (if f_accesstime g \<noteq> 0 then g\<lparr>sortfcn := Acccmp\<rparr>
            else if f_statustime g \<noteq> 0 then g\<lparr>sortfcn := Statcmp\<rparr>
            else g\<lparr>sortfcn := Modcmp\<rparr>)
         else g))"

definition select_printfcn :: "state \<Rightarrow> state" where
  "select_printfcn g =
     (if f_singlecol g \<noteq> 0 then g\<lparr>printfcn := Printscol\<rparr>
      else if f_columnacross g \<noteq> 0 then g\<lparr>printfcn := Printacol\<rparr>
      else if f_longform g \<noteq> 0 then g\<lparr>printfcn := Printlong\<rparr>
      else if f_stream g \<noteq> 0 then g\<lparr>printfcn := Printstream\<rparr>
      else g\<lparr>printfcn := Printcol\<rparr>)"

definition walk_options :: "fts_opt set \<Rightarrow> state \<Rightarrow> fts_opt set" where
  "walk_options fo g =
     (let fo1 = (if f_longform g = 0 \<and> f_inode g = 0 \<and> f_size g = 0 \<and> f_type g = 0 \<and>
                    f_typedir g = 0 \<and> sortkey g = BY_NAME
                 then insert FTS_NOSTAT fo else fo);
          fo2 = (if f_longform g = 0 \<and> f_listdir g = 0 \<and> f_type g = 0
                 then insert FTS_COMFOLLOW fo1 else fo1)
      in if f_whiteout g \<noteq> 0 then insert FTS_WHITEOUT fo2 else fo2)"

text \<open>
  \<^verbatim>\<open>ls_main\<close>. The option characters are the successive results of \<^verbatim>\<open>getopt\<close>,
  \<open>args\<close> is the argument vector past \<^verbatim>\<open>optind\<close>. The result \<open>Inl\<close> is the return
  through \<^verbatim>\<open>usage ()\<close>, whose value is decided in another file; \<open>Inr\<close> carries the
  value returned by \<^verbatim>\<open>return (rval)\<close> and the state the call leaves behind.
\<close>

definition ls_main ::
  "comparators \<Rightarrow> env \<Rightarrow> fts \<Rightarrow> char list \<Rightarrow> string list \<Rightarrow> state \<Rightarrow> state + int \<times> state" where
  "ls_main cs env fts_open opts args g =
     (let g1 = terminal_defaults env (clear_settings g);
          g2 = (if getuid env = 0 then g1\<lparr>f_listdot := 1\<rparr> else g1)
      in case getopt_loop opts {FTS_PHYSICAL, FTS_NOCHDIR} g2 of
           Inl g3 \<Rightarrow> Inl g3
         | Inr (fo, g3) \<Rightarrow>
             let argc = int (length args);
                 fts_options = walk_options fo g3;
                 g4 = (if f_longform g3 \<noteq> 0 \<or> f_size g3 \<noteq> 0
                       then g3\<lparr>blocksize := 1024 div 512\<rparr> else g3);
                 g5 = select_printfcn (select_sortfcn g4);
                 g6 = (if argc \<noteq> 0 then traverse cs env fts_open argc args fts_options g5
                       else traverse cs env fts_open 1 [''.''] fts_options g5)
             in Inr (rval g6, g6))"

text \<open>
  The state of a fresh process: the initialisers of the global variables
  (\<^verbatim>\<open>termwidth = 80\<close>, \<^verbatim>\<open>sortkey = BY_NAME\<close>, everything else zero or null), nothing
  written, an empty heap.
\<close>

definition initial_state :: state where
  "initial_state =
     \<lparr>blocksize = 0, termwidth = 80, sortkey = BY_NAME, output = 0,
      f_accesstime = 0, f_column = 0, f_columnacross = 0, f_flags = 0, f_inode = 0,
      f_listdir = 0, f_listdot = 0, f_longform = 0, f_newline = 0, f_nonprint = 0,
      f_nosort = 0, f_numericonly = 0, f_recursive = 0, f_reversesort = 0, f_sectime = 0,
      f_singlecol = 0, f_size = 0, f_statustime = 0, f_stream = 0, f_dirname = 0,
      f_type = 0, f_typedir = 0, f_whiteout = 0, rval = 0,
      printfcn = Null_printfcn, sortfcn = Null_sortfcn,
      stdout_log = [], stderr_log = [], heap = Map.empty, brk = 0, malloc_script = [],
      fts_skip_log = []\<rparr>"

section \<open>Notions used by the statements\<close>

text \<open>
  A three-way comparator is a strict weak ordering when its sign is antisymmetric, "less"
  is transitive, and "compares equal" is transitive.
\<close>

definition cmp_antisym :: "('a \<Rightarrow> 'a \<Rightarrow> int) \<Rightarrow> bool" where
  "cmp_antisym c = (\<forall>x y. sgn (c x y) = - sgn (c y x))"

definition cmp_trans :: "('a \<Rightarrow> 'a \<Rightarrow> int) \<Rightarrow> bool" where
  "cmp_trans c = (\<forall>x y z. c x y < 0 \<and> c y z < 0 \<longrightarrow> c x z < 0)"

definition cmp_equiv_trans :: "('a \<Rightarrow> 'a \<Rightarrow> int) \<Rightarrow> bool" where
  "cmp_equiv_trans c = (\<forall>x y z. c x y = 0 \<and> c y z = 0 \<longrightarrow> c x z = 0)"

definition strict_weak :: "('a \<Rightarrow> 'a \<Rightarrow> int) \<Rightarrow> bool" where
  "strict_weak c = (cmp_antisym c \<and> cmp_trans c \<and> cmp_equiv_trans c)"

text \<open>
  The pairs on which the master comparator decides by itself: an error entry, an entry
  without stat information, or a directory against another kind among the root arguments
  while directories are listed by their contents.
\<close>

definition special_case :: "state \<Rightarrow> ftsent \<Rightarrow> ftsent \<Rightarrow> bool" where
  "special_case g a b =
     (fts_info a = FTS_ERR \<or> fts_info b = FTS_ERR \<or> fts_info a = FTS_NS \<or> fts_info b = FTS_NS \<or>
      (fts_info a \<noteq> fts_info b \<and> fts_level a = FTS_ROOTLEVEL \<and> f_listdir g = 0 \<and>
       (fts_info a = FTS_D \<or> fts_info b = FTS_D)))"

text \<open>
  The group an entry belongs to in the order of the master comparator: entries without stat
  information last, before them the directories among the root arguments (while directories
  are listed by their contents), everything else first.
\<close>

definition group_rank :: "state \<Rightarrow> ftsent \<Rightarrow> nat" where
  "group_rank g x =
     (if fts_info x = FTS_NS then 2
      else if fts_info x = FTS_D \<and> fts_level x = FTS_ROOTLEVEL \<and> f_listdir g = 0 then 1
      else 0)"

text \<open>
  The entries \<^verbatim>\<open>display\<close> marks do-not-print: an error or not-stat-able node, a
  directory among the root arguments (shown later, unless directories are listed
  themselves), a dot file below a directory (unless dot files are listed). The surviving
  entries are the others.
\<close>

definition unreadable :: "ftsent \<Rightarrow> bool" where
  "unreadable cur = (fts_info cur = FTS_ERR \<or> fts_info cur = FTS_NS)"

definition suppressed :: "state \<Rightarrow> bool \<Rightarrow> ftsent \<Rightarrow> bool" where
  "suppressed g p_null cur =
     (unreadable cur \<or>
      (p_null \<and> fts_info cur = FTS_D \<and> f_listdir g = 0) \<or>
      (\<not> p_null \<and> first_is_dot (fts_name cur) \<and> f_listdot g = 0))"

definition surviving :: "state \<Rightarrow> bool \<Rightarrow> ftsent list \<Rightarrow> ftsent list" where
  "surviving g p_null lst = filter (\<lambda>cur. \<not> suppressed g p_null cur) lst"

definition node_errors :: "ftsent list \<Rightarrow> err_event list" where
  "node_errors lst =
     map (\<lambda>cur. Node_error (fts_name cur) (fts_errno cur)) (filter unreadable lst)"

definition mark_no_print :: "ftsent \<Rightarrow> ftsent" where
  "mark_no_print cur = cur\<lparr>fts_number := NO_PRINT\<rparr>"

text \<open>What one surviving entry contributes to the accumulators when no allocation fails.\<close>

definition contribute :: "env \<Rightarrow> state \<Rightarrow> ftsent \<Rightarrow> agg \<Rightarrow> agg" where
  "contribute env g cur a =
     (let a1 = measure_name cur a in
      if needstats g then
        let a2 = measure_stat (fts_statp cur) a1 in
        if f_longform g \<noteq> 0 then
          count_entry (measure_device (fts_statp cur) (measure_owner env g (fts_statp cur) a2))
        else count_entry a2
      else count_entry a1)"

text \<open>The error reports that are not the report of a directory cycle.\<close>

fun is_cycle :: "err_event \<Rightarrow> bool" where
  "is_cycle (Dir_cycle name) = True"
| "is_cycle _ = False"

text \<open>
  Two states agree on the settings when the flags and function pointers read by the display
  pass and the traversal are the same in both.
\<close>

definition same_settings :: "state \<Rightarrow> state \<Rightarrow> bool" where
  "same_settings g g1 =
     (f_listdir g1 = f_listdir g \<and> f_listdot g1 = f_listdot g \<and> f_inode g1 = f_inode g \<and>
      f_longform g1 = f_longform g \<and> f_size g1 = f_size g \<and>
      f_numericonly g1 = f_numericonly g \<and> f_flags g1 = f_flags g \<and>
      f_recursive g1 = f_recursive g \<and> f_nosort g1 = f_nosort g \<and>
      printfcn g1 = printfcn g \<and> sortfcn g1 = sortfcn g)"

text \<open>
  The reports a piece of code added to the error channel, and the discipline they follow:
  the failure status is set exactly when it was set before or a report other than that of
  a directory cycle was added.
\<close>

definition new_errors :: "state \<Rightarrow> state \<Rightarrow> err_event list" where
  "new_errors g g1 = drop (length (stderr_log g)) (stderr_log g1)"

definition accounted :: "state \<Rightarrow> state \<Rightarrow> bool" where
  "accounted g g1 =
     (stderr_log g1 = stderr_log g @ new_errors g g1 \<and>
      (rval g1 \<noteq> 0 \<longleftrightarrow> rval g \<noteq> 0 \<or> (\<exists>m\<in>set (new_errors g g1). \<not> is_cycle m)))"

text \<open>The addresses the entries of a sibling list point to.\<close>

definition annotation_pointers :: "ftsent list \<Rightarrow> nat set" where
  "annotation_pointers lst = {np. Some np \<in> fts_pointer ` set lst}"

section \<open>Concrete inputs\<close>

text \<open>
  The field comparators of \<^verbatim>\<open>cmp.c\<close> are a parameter of the model. For the concrete
  instances below the name comparators are \<^verbatim>\<open>strcmp\<close> on the names, the size
  comparators compare \<^verbatim>\<open>st_size\<close>, each reversed variant swaps its arguments, and the
  time comparators, for which the model of \<^verbatim>\<open>struct stat\<close> holds no field, return 0.
\<close>

fun bytecmp :: "nat list \<Rightarrow> nat list \<Rightarrow> int" where
  "bytecmp [] [] = 0"
| "bytecmp [] (y # ys) = - 1"
| "bytecmp (x # xs) [] = 1"
| "bytecmp (x # xs) (y # ys) =
     (if x < y then - 1 else if y < x then 1 else bytecmp xs ys)"

definition strcmp :: "string \<Rightarrow> string \<Rightarrow> int" where
  "strcmp s t = bytecmp (map of_char s) (map of_char t)"

definition by_name :: "ftsent \<Rightarrow> ftsent \<Rightarrow> int" where
  "by_name a b = strcmp (fts_name a) (fts_name b)"

definition by_size :: "ftsent \<Rightarrow> ftsent \<Rightarrow> int" where
  "by_size a b =
     (if sint (st_size (fts_statp a)) < sint (st_size (fts_statp b)) then - 1
      else if sint (st_size (fts_statp b)) < sint (st_size (fts_statp a)) then 1
      else 0)"

fun example_cs :: comparators where
  "example_cs Namecmp = by_name"
| "example_cs Revnamecmp = (\<lambda>a b. by_name b a)"
| "example_cs Sizecmp = by_size"
| "example_cs Revsizecmp = (\<lambda>a b. by_size b a)"
| "example_cs _ = (\<lambda>a b. 0)"

definition example_stat :: "64 word \<Rightarrow> 64 word \<Rightarrow> stat" where
  "example_stat sz blk =
     \<lparr>st_mode = 0x81A4, st_ino = 1, st_nlink = 1, st_uid = 0, st_gid = 0,
      st_size = sz, st_blocks = blk\<rparr>"

definition example_entry :: "string \<Rightarrow> fts_info \<Rightarrow> int \<Rightarrow> stat \<Rightarrow> ftsent" where
  "example_entry name info lvl sp =
     \<lparr>fts_info = info, fts_name = name, fts_path = name,
      fts_namelen = of_nat (length name), fts_level = lvl, fts_errno = 0,
      fts_number = 0, fts_pointer = None, fts_statp = sp\<rparr>"

definition root_dir :: ftsent where
  "root_dir = example_entry ''src'' FTS_D 0 (example_stat 65536 128)"

definition root_file :: ftsent where
  "root_file = example_entry ''README'' FTS_F 0 (example_stat 100 8)"

definition root_file2 :: ftsent where
  "root_file2 = example_entry ''TODO'' FTS_F 0 (example_stat 2000 16)"

definition root_nostat :: ftsent where
  "root_nostat = example_entry ''gone'' FTS_NS 0 (example_stat 0 0)\<lparr>fts_errno := 2\<rparr>"

definition root_error :: ftsent where
  "root_error = example_entry ''bad'' FTS_ERR 0 (example_stat 0 0)\<lparr>fts_errno := 13\<rparr>"

definition example_env :: env where
  "example_env =
     \<lparr>isatty_stdout = False, getenv_COLUMNS = None, ioctl_ws_col = None, getuid = 1000,
      getpwuid = (\<lambda>uid. if uid = 0 then Some ''root'' else None),
      getgrgid = (\<lambda>gid. if gid = 0 then Some ''wheel'' else None)\<rparr>"

text \<open>The configuration of a plain run: sorted by name, one entry per line.\<close>

definition plain_state :: state where
  "plain_state = initial_state\<lparr>f_singlecol := 1, sortfcn := Namecmp, printfcn := Printscol\<rparr>"

definition example_event :: "ftsent \<Rightarrow> ftsent list \<Rightarrow> event" where
  "example_event p children = \<lparr>ev_node = p, ev_children = (\<lambda>ch_options. children)\<rparr>"




definition error_fts :: fts where
  "error_fts argv options cmp =
     Inr \<lparr>root_list = [root_file, root_nostat],
          events = [example_event root_file [], example_event root_nostat []],
          final_errno = 0\<rparr>"

definition clean_fts :: fts where
  "clean_fts argv options cmp =
     Inr \<lparr>root_list = [root_file, root_file2],
          events = [example_event root_file [], example_event root_file2 []],
          final_errno = 0\<rparr>"

text \<open>The configuration of a long listing, as \<^verbatim>\<open>ls -l\<close> sets it up.\<close>

definition long_state :: state where
  "long_state =
     initial_state\<lparr>f_longform := 1, blocksize := 2, sortfcn := Namecmp, printfcn := Printlong\<rparr>"

definition example_descriptor :: DISPLAY where
  "example_descriptor =
     \<lparr>d_list = [mark_no_print root_dir, root_file\<lparr>fts_pointer := Some 0\<rparr>,
                root_file2\<lparr>fts_pointer := Some 1\<rparr>, mark_no_print root_error],
      d_entries = 2, d_maxlen = 6,
      d_stats = Some \<lparr>bcfile = 0, btotal = 24, s_block = 2, s_flags = 0, s_group = 5,
                      s_inode = 1, s_nlink = 1, s_size = 4, s_user = 4\<rparr>\<rparr>"

text \<open>
  A walk primitive that honours the comparator for its two root arguments: with a comparator
  it returns them in the comparator's order, without one in the order given.
\<close>

definition sorting_fts :: fts where
  "sorting_fts argv options cmp =
     (let roots =
        (case cmp of
           None \<Rightarrow> [root_file2, root_file]
         | Some c \<Rightarrow> if c root_file2 root_file > 0 then [root_file, root_file2]
                     else [root_file2, root_file])
      in Inr \<lparr>root_list = roots, events = map (\<lambda>p. example_event p []) roots,
              final_errno = 0\<rparr>)"

text \<open>
  A recursive walk below \<^verbatim>\<open>src\<close> that holds a hidden directory with a node that
  cannot be stat-ed.
\<close>

definition hidden_dir :: ftsent where
  "hidden_dir = example_entry ''.git'' FTS_D 1 (example_stat 4096 8)"

definition hidden_child :: ftsent where
  "hidden_child = example_entry ''HEAD'' FTS_NS 2 (example_stat 0 0)\<lparr>fts_errno := 13\<rparr>"

definition hidden_fts :: fts where
  "hidden_fts argv options cmp =
     Inr \<lparr>root_list = [root_dir],
          events = [example_event root_dir [hidden_dir],
                    example_event hidden_dir [hidden_child],
                    example_event hidden_child [],
                    example_event (hidden_dir\<lparr>fts_info := FTS_DP\<rparr>) [],
                    example_event (root_dir\<lparr>fts_info := FTS_DP\<rparr>) []],
          final_errno = 0\<rparr>"

section \<open>Properties of the master comparator\<close>

lemma bytecmp_antisym: "sgn (bytecmp a b) = - sgn (bytecmp b a)"
  by (induction a b rule: bytecmp.induct) auto

lemma bytecmp_zero: "bytecmp a b = 0 \<longleftrightarrow> a = b"
  by (induction a b rule: bytecmp.induct) auto

lemma bytecmp_less_trans: "bytecmp a b < 0 \<Longrightarrow> bytecmp b c < 0 \<Longrightarrow> bytecmp a c < 0"
proof (induction a b arbitrary: c rule: bytecmp.induct)
  case 1
  then show ?case by simp
next
  case (2 y ys)
  then show ?case by (cases c) simp_all
next
  case (3 x xs)
  then show ?case by simp
next
  case (4 x xs y ys)
  show ?case
  proof (cases c)
    case Nil
    with 4 show ?thesis by simp
  next
    case (Cons z zs)
    show ?thesis
    proof (cases "x < y")
      case True
      with 4(3) Cons show ?thesis by (simp split: if_splits)
    next
      case False
      with 4(2) have xy: "x = y" and r: "bytecmp xs ys < 0"
        by (simp_all split: if_splits)
      show ?thesis
      proof (cases "y < z")
        case True
        with xy Cons show ?thesis by simp
      next
        case False
        with 4(3) Cons have yz: "y = z" and r2: "bytecmp ys zs < 0"
          by (simp_all split: if_splits)
        from xy have nlt: "\<not> x < y" "\<not> y < x" by simp_all
        have "bytecmp xs zs < 0" using "4.IH" [OF nlt r r2] .
        with xy yz Cons show ?thesis by simp
      qed
    qed
  qed
qed

lemma strict_weak_by_name: "strict_weak by_name"
proof -
  have "cmp_antisym by_name"
    unfolding cmp_antisym_def by_name_def strcmp_def by (intro allI bytecmp_antisym)
  moreover have "cmp_trans by_name"
    unfolding cmp_trans_def by_name_def strcmp_def by (blast intro: bytecmp_less_trans)
  moreover have "cmp_equiv_trans by_name"
    by (simp add: cmp_equiv_trans_def by_name_def strcmp_def bytecmp_zero)
  ultimately show ?thesis by (simp add: strict_weak_def)
qed

lemma strict_weak_by_size: "strict_weak by_size"
  unfolding strict_weak_def cmp_antisym_def cmp_trans_def cmp_equiv_trans_def by_size_def
  by (auto split: if_splits)

lemma select_sortfcn_f_listdir [simp]: "f_listdir (select_sortfcn g) = f_listdir g"
  by (simp add: select_sortfcn_def)

text \<open>
  C7. Whenever at least one of the two entries is marked as a traversal error
  (\<^verbatim>\<open>FTS_ERR\<close>), the master comparator returns zero, whatever the configuration and
  the field comparators are.
\<close>

theorem mastercmp_error_equal:
  "fts_info a = FTS_ERR \<or> fts_info b = FTS_ERR \<Longrightarrow> mastercmp cs g a b = 0"
  by (auto simp: mastercmp_def Let_def)

theorem mastercmp_error_equal_witness:
  "mastercmp example_cs plain_state root_error root_file = 0 \<and>
   mastercmp example_cs plain_state root_file root_error = 0 \<and>
   mastercmp example_cs plain_state root_error root_error = 0"
  using mastercmp_error_equal [of root_error root_file example_cs plain_state]
    mastercmp_error_equal [of root_file root_error example_cs plain_state]
    mastercmp_error_equal [of root_error root_error example_cs plain_state]
  by (simp add: root_error_def example_entry_def)

text \<open>
  C1. Among the root arguments, with directories listed by their contents, the code orders
  a directory after an entry of another kind: the directory compares greater (1), the other
  entry less (-1). The claim says the directory compares less.
\<close>

theorem mastercmp_root_directory_greater:
  "mastercmp example_cs plain_state root_dir root_file = 1 \<and>
   mastercmp example_cs plain_state root_file root_dir = - 1"
  by (simp add: mastercmp_def Let_def root_dir_def root_file_def example_entry_def
      plain_state_def initial_state_def FTS_ROOTLEVEL_def)

text \<open>
  C8. On every pair that triggers a special case of the master comparator (an error entry,
  an entry without stat information, a directory against another kind among the root
  arguments), the result with the reversed toggle on is the result with the toggle off;
  on every other pair the result is the result of the field comparator that the toggle
  selected.
\<close>

theorem mastercmp_reverse_keeps_special_cases:
  "(special_case g a b \<longrightarrow>
      mastercmp cs (select_sortfcn (g\<lparr>f_reversesort := 1\<rparr>)) a b =
      mastercmp cs (select_sortfcn (g\<lparr>f_reversesort := 0\<rparr>)) a b) \<and>
   (\<not> special_case g a b \<longrightarrow>
      mastercmp cs (select_sortfcn (g\<lparr>f_reversesort := r\<rparr>)) a b =
      cs (sortfcn (select_sortfcn (g\<lparr>f_reversesort := r\<rparr>))) a b)"
  by (auto simp: special_case_def mastercmp_def Let_def)

theorem mastercmp_reverse_keeps_special_cases_witness:
  "special_case plain_state root_dir root_file \<and>
   mastercmp example_cs (select_sortfcn (plain_state\<lparr>f_reversesort := 1\<rparr>)) root_dir root_file =
   mastercmp example_cs (select_sortfcn (plain_state\<lparr>f_reversesort := 0\<rparr>)) root_dir root_file \<and>
   \<not> special_case plain_state root_file root_file2 \<and>
   mastercmp example_cs (select_sortfcn (plain_state\<lparr>f_reversesort := 1\<rparr>)) root_file root_file2 =
   example_cs Revnamecmp root_file root_file2"
proof -
  have s: "special_case plain_state root_dir root_file"
    by (simp add: special_case_def root_dir_def root_file_def example_entry_def
        plain_state_def initial_state_def FTS_ROOTLEVEL_def)
  have n: "\<not> special_case plain_state root_file root_file2"
    by (simp add: special_case_def root_file_def root_file2_def example_entry_def)
  have k: "sortfcn (select_sortfcn (plain_state\<lparr>f_reversesort := 1\<rparr>)) = Revnamecmp"
    by (simp add: select_sortfcn_def plain_state_def initial_state_def BY_NAME_def)
  show ?thesis
    using s n k
      mastercmp_reverse_keeps_special_cases [of plain_state root_dir root_file example_cs 1]
      mastercmp_reverse_keeps_special_cases [of plain_state root_file root_file2 example_cs 1]
    by simp
qed

lemma mastercmp_by_rank:
  assumes "fts_info a \<noteq> FTS_ERR" "fts_info b \<noteq> FTS_ERR" "fts_level a = fts_level b"
  shows "mastercmp cs g a b =
     (if group_rank g a < group_rank g b then - 1
      else if group_rank g b < group_rank g a then 1
      else if fts_info a = FTS_NS then cs Namecmp a b
      else cs (sortfcn g) a b)"
  using assms by (auto simp: mastercmp_def Let_def group_rank_def)

lemma mastercmp_with_error: "fts_info a = FTS_ERR \<or> fts_info b = FTS_ERR \<Longrightarrow> mastercmp cs g a b = 0"
  by (auto simp: mastercmp_def Let_def)

lemma mastercmp_antisym:
  assumes sw: "strict_weak (cs (sortfcn g))" "strict_weak (cs Namecmp)"
    and lv: "fts_level a = fts_level b"
  shows "sgn (mastercmp cs g a b) = - sgn (mastercmp cs g b a)"
proof (cases "fts_info a = FTS_ERR \<or> fts_info b = FTS_ERR")
  case True
  then have "mastercmp cs g a b = 0" "mastercmp cs g b a = 0"
    using mastercmp_with_error [of a b cs g] mastercmp_with_error [of b a cs g] by blast+
  then show ?thesis by simp
next
  case False
  from sw have s: "sgn (cs (sortfcn g) a b) = - sgn (cs (sortfcn g) b a)"
    and n: "sgn (cs Namecmp a b) = - sgn (cs Namecmp b a)"
    unfolding strict_weak_def cmp_antisym_def by blast+
  from False lv have ab: "mastercmp cs g a b = (if group_rank g a < group_rank g b then - 1
      else if group_rank g b < group_rank g a then 1
      else if fts_info a = FTS_NS then cs Namecmp a b
      else cs (sortfcn g) a b)" by (simp add: mastercmp_by_rank)
  from False lv have ba: "mastercmp cs g b a = (if group_rank g b < group_rank g a then - 1
      else if group_rank g a < group_rank g b then 1
      else if fts_info b = FTS_NS then cs Namecmp b a
      else cs (sortfcn g) b a)" by (simp add: mastercmp_by_rank)
  have same: "group_rank g a = group_rank g b \<Longrightarrow> (fts_info a = FTS_NS) = (fts_info b = FTS_NS)"
    by (auto simp: group_rank_def split: if_splits)
  show ?thesis unfolding ab ba using s n same by (auto simp: not_less)
qed

lemma mastercmp_less_trans:
  assumes sw: "strict_weak (cs (sortfcn g))" "strict_weak (cs Namecmp)"
    and lv: "fts_level a = fts_level b" "fts_level b = fts_level c"
    and lt: "mastercmp cs g a b < 0" "mastercmp cs g b c < 0"
  shows "mastercmp cs g a c < 0"
proof -
  from lt have ne: "fts_info a \<noteq> FTS_ERR" "fts_info b \<noteq> FTS_ERR" "fts_info c \<noteq> FTS_ERR"
    using mastercmp_with_error [of a b cs g] mastercmp_with_error [of b c cs g] by auto
  from sw have s: "\<And>x y z. cs (sortfcn g) x y < 0 \<Longrightarrow> cs (sortfcn g) y z < 0 \<Longrightarrow> cs (sortfcn g) x z < 0"
    and n: "\<And>x y z. cs Namecmp x y < 0 \<Longrightarrow> cs Namecmp y z < 0 \<Longrightarrow> cs Namecmp x z < 0"
    unfolding strict_weak_def cmp_trans_def by blast+
  have same: "\<And>x y. group_rank g x = group_rank g y \<Longrightarrow> (fts_info x = FTS_NS) = (fts_info y = FTS_NS)"
    by (auto simp: group_rank_def split: if_splits)
  from lv have lv': "fts_level a = fts_level c" by simp
  note ab = mastercmp_by_rank [OF ne(1) ne(2) lv(1), of cs g]
  note bc = mastercmp_by_rank [OF ne(2) ne(3) lv(2), of cs g]
  note ac = mastercmp_by_rank [OF ne(1) ne(3) lv', of cs g]
  from lt(1) have r1: "group_rank g a \<le> group_rank g b" unfolding ab by (auto split: if_splits)
  from lt(2) have r2: "group_rank g b \<le> group_rank g c" unfolding bc by (auto split: if_splits)
  show ?thesis
  proof (cases "group_rank g a < group_rank g c")
    case True
    then show ?thesis unfolding ac by simp
  next
    case False
    with r1 r2 have e: "group_rank g a = group_rank g b" "group_rank g b = group_rank g c" by simp_all
    show ?thesis
    proof (cases "fts_info a = FTS_NS")
      case True
      with e same have "fts_info b = FTS_NS" by blast
      with True e lt ab bc have "cs Namecmp a b < 0" "cs Namecmp b c < 0" by simp_all
      then have "cs Namecmp a c < 0" by (rule n)
      with True e show ?thesis unfolding ac by simp
    next
      case False
      with e same have "fts_info b \<noteq> FTS_NS" by blast
      with False e lt ab bc have "cs (sortfcn g) a b < 0" "cs (sortfcn g) b c < 0" by simp_all
      then have "cs (sortfcn g) a c < 0" by (rule s)
      with False e show ?thesis unfolding ac by simp
    qed
  qed
qed

lemma mastercmp_equiv_trans:
  assumes sw: "strict_weak (cs (sortfcn g))" "strict_weak (cs Namecmp)"
    and lv: "fts_level a = fts_level b" "fts_level b = fts_level c"
    and nb: "fts_info b \<noteq> FTS_ERR"
    and eq: "mastercmp cs g a b = 0" "mastercmp cs g b c = 0"
  shows "mastercmp cs g a c = 0"
proof (cases "fts_info a = FTS_ERR \<or> fts_info c = FTS_ERR")
  case True
  then show ?thesis by (rule mastercmp_with_error)
next
  case False
  then have ne: "fts_info a \<noteq> FTS_ERR" "fts_info c \<noteq> FTS_ERR" by simp_all
  from sw have s: "\<And>x y z. cs (sortfcn g) x y = 0 \<Longrightarrow> cs (sortfcn g) y z = 0 \<Longrightarrow> cs (sortfcn g) x z = 0"
    and n: "\<And>x y z. cs Namecmp x y = 0 \<Longrightarrow> cs Namecmp y z = 0 \<Longrightarrow> cs Namecmp x z = 0"
    unfolding strict_weak_def cmp_equiv_trans_def by blast+
  have same: "\<And>x y. group_rank g x = group_rank g y \<Longrightarrow> (fts_info x = FTS_NS) = (fts_info y = FTS_NS)"
    by (auto simp: group_rank_def split: if_splits)
  from lv have lv': "fts_level a = fts_level c" by simp
  note ab = mastercmp_by_rank [OF ne(1) nb lv(1), of cs g]
  note bc = mastercmp_by_rank [OF nb ne(2) lv(2), of cs g]
  note ac = mastercmp_by_rank [OF ne(1) ne(2) lv', of cs g]
  from eq(1) have r1: "group_rank g a = group_rank g b" unfolding ab by (auto split: if_splits)
  from eq(2) have r2: "group_rank g b = group_rank g c" unfolding bc by (auto split: if_splits)
  show ?thesis
  proof (cases "fts_info a = FTS_NS")
    case True
    with r1 same have "fts_info b = FTS_NS" by blast
    with True r1 r2 eq ab bc have "cs Namecmp a b = 0" "cs Namecmp b c = 0" by simp_all
    then have "cs Namecmp a c = 0" by (rule n)
    with True r1 r2 show ?thesis unfolding ac by simp
  next
    case False
    with r1 same have "fts_info b \<noteq> FTS_NS" by blast
    with False r1 r2 eq ab bc have "cs (sortfcn g) a b = 0" "cs (sortfcn g) b c = 0" by simp_all
    then have "cs (sortfcn g) a c = 0" by (rule s)
    with False r1 r2 show ?thesis unfolding ac by simp
  qed
qed

text \<open>
  C4 (amended). For a fixed configuration whose field comparator and name comparator are
  strict weak orderings, and for entries of one sibling list (equal level), the master
  comparator is antisymmetric in sign and its "less" is transitive, also when error-marked
  or not-stat-able entries take part; its "compares equal" is transitive through every
  entry that is not error-marked.
\<close>

theorem mastercmp_strict_weak_without_errors:
  assumes "strict_weak (cs (sortfcn g))" and "strict_weak (cs Namecmp)"
    and "fts_level a = fts_level b" and "fts_level b = fts_level c"
  shows "sgn (mastercmp cs g a b) = - sgn (mastercmp cs g b a) \<and>
         (mastercmp cs g a b < 0 \<and> mastercmp cs g b c < 0 \<longrightarrow> mastercmp cs g a c < 0) \<and>
         (fts_info b \<noteq> FTS_ERR \<and> mastercmp cs g a b = 0 \<and> mastercmp cs g b c = 0 \<longrightarrow>
            mastercmp cs g a c = 0)"
  using assms mastercmp_antisym [of cs g a b] mastercmp_less_trans [of cs g a b c]
    mastercmp_equiv_trans [of cs g a b c]
  by blast

text \<open>
  An error-marked entry compares equal to everything, so with one present "compares equal"
  is not transitive: the entry without stat information equals the error entry, the error
  entry equals the regular file, and the first is greater than the last.
\<close>

theorem mastercmp_equivalence_counterexample:
  "mastercmp example_cs plain_state root_nostat root_error = 0 \<and>
   mastercmp example_cs plain_state root_error root_file = 0 \<and>
   mastercmp example_cs plain_state root_nostat root_file \<noteq> 0"
  by (simp add: mastercmp_def Let_def root_nostat_def root_error_def root_file_def
      example_entry_def)

theorem mastercmp_strict_weak_without_errors_witness:
  "strict_weak (example_cs (sortfcn plain_state)) \<and> strict_weak (example_cs Namecmp) \<and>
   fts_level root_file = fts_level root_dir \<and> fts_level root_dir = fts_level root_nostat \<and>
   sgn (mastercmp example_cs plain_state root_file root_dir) =
     - sgn (mastercmp example_cs plain_state root_dir root_file) \<and>
   mastercmp example_cs plain_state root_file root_dir < 0 \<and>
   mastercmp example_cs plain_state root_dir root_nostat < 0 \<and>
   mastercmp example_cs plain_state root_file root_nostat < 0"
proof -
  have k: "sortfcn plain_state = Namecmp" by (simp add: plain_state_def)
  have sw: "strict_weak (example_cs (sortfcn plain_state))" "strict_weak (example_cs Namecmp)"
    by (simp_all add: k strict_weak_by_name)
  have lv: "fts_level root_file = fts_level root_dir" "fts_level root_dir = fts_level root_nostat"
    by (simp_all add: root_file_def root_dir_def root_nostat_def example_entry_def)
  have lt: "mastercmp example_cs plain_state root_file root_dir < 0"
    "mastercmp example_cs plain_state root_dir root_nostat < 0"
    by (simp_all add: mastercmp_def Let_def root_file_def root_dir_def root_nostat_def
        example_entry_def plain_state_def initial_state_def FTS_ROOTLEVEL_def)
  show ?thesis
    using sw lv lt
      mastercmp_strict_weak_without_errors [OF sw lv, of]
    by simp
qed

lemmas run_defs =
  ls_main_def clear_settings_def terminal_defaults_def ls_option_def select_sortfcn_def
  select_printfcn_def walk_options_def traverse_def traverse_event_def compar_def
  display_def display_entry_def annotate_def measure_name_def measure_stat_def
  measure_owner_def measure_device_def count_entry_def make_display_def needstats_def
  malloc_def free_def user_of_def group_of_def first_is_dot_def agg0_def
  initial_state_def example_env_def example_entry_def example_stat_def example_event_def
  BY_NAME_def BY_SIZE_def BY_TIME_def FTS_ROOTLEVEL_def NO_PRINT_def EXIT_FAILURE_def
  S_ISCHR_def S_ISBLK_def Let_def

section \<open>Properties of the display pass\<close>

lemma same_settings_refl [simp]: "same_settings g g"
  by (simp add: same_settings_def)

lemma same_settings_trans: "same_settings g g1 \<Longrightarrow> same_settings g1 g2 \<Longrightarrow> same_settings g g2"
  by (simp add: same_settings_def)

lemma malloc_settings: "malloc g = (r, g1) \<Longrightarrow> same_settings g g1"
  by (auto simp: malloc_def same_settings_def split: list.splits if_splits)

lemma malloc_logs:
  "malloc g = (r, g1) \<Longrightarrow>
     stdout_log g1 = stdout_log g \<and> stderr_log g1 = stderr_log g \<and> rval g1 = rval g \<and>
     output g1 = output g \<and> heap g1 = heap g \<and> fts_skip_log g1 = fts_skip_log g"
  by (auto simp: malloc_def split: list.splits if_splits)

lemma annotate_Inr_settings:
  "annotate env cur a g = Inr (c, a1, g1) \<Longrightarrow>
     same_settings g g1 \<and> stdout_log g1 = stdout_log g \<and> output g1 = output g \<and>
     fts_skip_log g1 = fts_skip_log g \<and> stderr_log g1 = stderr_log g \<and> rval g1 = rval g"
  by (auto simp: annotate_def Let_def same_settings_def malloc_def
      split: prod.splits option.splits list.splits if_splits)

lemma annotate_Inl_settings:
  "annotate env cur a g = Inl g1 \<Longrightarrow>
     same_settings g g1 \<and> stdout_log g1 = stdout_log g \<and> output g1 = output g \<and>
     fts_skip_log g1 = fts_skip_log g \<and> heap g1 = heap g \<and>
     stderr_log g1 = stderr_log g @ [Malloc_failed] \<and> rval g1 = EXIT_FAILURE"
  by (auto simp: annotate_def Let_def same_settings_def malloc_def
      split: prod.splits option.splits list.splits if_splits)

lemma annotate_Inr_agg:
  "annotate env cur a g = Inr (c, a1, g1) \<Longrightarrow>
     a1 = measure_device (fts_statp cur) (measure_owner env g (fts_statp cur) a)"
  by (auto simp: annotate_def Let_def split: prod.splits option.splits)

lemma display_entry_Inr_settings:
  "display_entry env pn cur a g = Inr (c, a1, g1) \<Longrightarrow>
     same_settings g g1 \<and> stdout_log g1 = stdout_log g \<and> output g1 = output g \<and>
     fts_skip_log g1 = fts_skip_log g"
  by (auto simp: display_entry_def Let_def same_settings_def
      split: if_splits sum.splits dest!: annotate_Inr_settings)

lemma display_entry_Inl_settings:
  "display_entry env pn cur a g = Inl g1 \<Longrightarrow>
     same_settings g g1 \<and> stdout_log g1 = stdout_log g \<and> output g1 = output g \<and>
     fts_skip_log g1 = fts_skip_log g"
  by (auto simp: display_entry_def Let_def
      split: if_splits sum.splits dest!: annotate_Inl_settings)

lemma display_entry_Inr_agg:
  "display_entry env pn cur a g = Inr (c, a1, g1) \<Longrightarrow>
     a1 = (if suppressed g pn cur then a else contribute env g cur a)"
  by (auto simp: display_entry_def Let_def suppressed_def unreadable_def contribute_def
      split: if_splits sum.splits dest!: annotate_Inr_agg)

lemma display_entry_Inl_survivor:
  "display_entry env pn cur a g = Inl g1 \<Longrightarrow> \<not> suppressed g pn cur"
  by (auto simp: display_entry_def Let_def suppressed_def unreadable_def
      split: if_splits sum.splits)

lemma same_settings_suppressed: "same_settings g g1 \<Longrightarrow> suppressed g1 pn cur = suppressed g pn cur"
  by (simp add: same_settings_def suppressed_def)

lemma same_settings_surviving: "same_settings g g1 \<Longrightarrow> surviving g1 pn lst = surviving g pn lst"
  by (simp add: surviving_def same_settings_suppressed)

lemma same_settings_needstats: "same_settings g g1 \<Longrightarrow> needstats g1 = needstats g"
  by (simp add: same_settings_def needstats_def)

lemma same_settings_contribute: "same_settings g g1 \<Longrightarrow> contribute env g1 cur a = contribute env g cur a"
  by (simp add: same_settings_def contribute_def needstats_def measure_owner_def
      user_of_def group_of_def Let_def)

lemma display_loop_Inr:
  "display_loop env pn lst a g = Inr (lst1, a1, g1) \<Longrightarrow>
     a1 = fold (contribute env g) (surviving g pn lst) a \<and>
     same_settings g g1 \<and> stdout_log g1 = stdout_log g \<and> output g1 = output g \<and>
     fts_skip_log g1 = fts_skip_log g \<and> length lst1 = length lst"
proof (induction lst arbitrary: a g lst1 a1 g1)
  case Nil
  then show ?case by (simp add: surviving_def)
next
  case (Cons cur rest)
  from Cons.prems obtain c a2 g2 rest1 where
    e: "display_entry env pn cur a g = Inr (c, a2, g2)"
    and l: "display_loop env pn rest a2 g2 = Inr (rest1, a1, g1)"
    and r: "lst1 = c # rest1"
    by (auto split: sum.splits prod.splits)
  note s = display_entry_Inr_settings [OF e]
  note ag = display_entry_Inr_agg [OF e]
  note ih = Cons.IH [OF l]
  from s have ss: "same_settings g g2" by simp
  have f: "fold (contribute env g2) (surviving g2 pn rest) a2 =
           fold (contribute env g) (surviving g pn (cur # rest)) a"
    using ag same_settings_contribute [OF ss] same_settings_surviving [OF ss]
    by (auto simp: surviving_def fun_eq_iff intro: fold_cong)
  show ?case using ih s f r same_settings_trans [OF ss] by auto
qed

lemma display_loop_Inl:
  "display_loop env pn lst a g = Inl (lst1, g1) \<Longrightarrow>
     same_settings g g1 \<and> stdout_log g1 = stdout_log g \<and> output g1 = output g \<and>
     fts_skip_log g1 = fts_skip_log g \<and> surviving g pn lst \<noteq> []"
proof (induction lst arbitrary: a g lst1 g1)
  case Nil
  then show ?case by simp
next
  case (Cons cur rest)
  show ?case
  proof (cases "display_entry env pn cur a g")
    case (Inl g2)
    with Cons.prems have "g1 = g2" by simp
    with display_entry_Inl_settings [OF Inl] display_entry_Inl_survivor [OF Inl]
    show ?thesis by (simp add: surviving_def)
  next
    case (Inr t)
    then obtain c a2 g2 where e: "display_entry env pn cur a g = Inr (c, a2, g2)"
      by (cases t) auto
    with Cons.prems obtain rest1 where l: "display_loop env pn rest a2 g2 = Inl (rest1, g1)"
      by (auto split: sum.splits prod.splits)
    note s = display_entry_Inr_settings [OF e]
    from s have ss: "same_settings g g2" by simp
    note ih = Cons.IH [OF l]
    from ih same_settings_surviving [OF ss] have "surviving g pn rest \<noteq> []" by simp
    then have "surviving g pn (cur # rest) \<noteq> []" by (simp add: surviving_def)
    then show ?thesis using ih s same_settings_trans [OF ss] by auto
  qed
qed

lemma max_if:
  fixes a b :: "'a::linorder"
  shows "max a b = (if a < b then b else a)"
  by (auto simp: max_def)

lemma measure_name_fields:
  "maxlen (measure_name cur a) = max (maxlen a) (fts_namelen cur) \<and>
   maxblock (measure_name cur a) = maxblock a \<and> maxinode (measure_name cur a) = maxinode a \<and>
   maxnlink (measure_name cur a) = maxnlink a \<and> maxsize (measure_name cur a) = maxsize a \<and>
   a_btotal (measure_name cur a) = a_btotal a \<and> maxuser (measure_name cur a) = maxuser a \<and>
   maxgroup (measure_name cur a) = maxgroup a \<and> entries (measure_name cur a) = entries a"
  by (simp add: measure_name_def max_if)

lemma measure_stat_maxlen: "maxlen (measure_stat sp a) = maxlen a"
  by (simp add: measure_stat_def Let_def)

lemma measure_stat_maxuser: "maxuser (measure_stat sp a) = maxuser a"
  by (simp add: measure_stat_def Let_def)

lemma measure_stat_maxgroup: "maxgroup (measure_stat sp a) = maxgroup a"
  by (simp add: measure_stat_def Let_def)

lemma measure_stat_entries: "entries (measure_stat sp a) = entries a"
  by (simp add: measure_stat_def Let_def)

lemma measure_stat_btotal: "a_btotal (measure_stat sp a) = a_btotal a + st_blocks sp"
  by (simp add: measure_stat_def Let_def)

lemma measure_stat_maxblock:
  "sint (maxblock (measure_stat sp a)) = max (sint (maxblock a)) (sint (st_blocks sp))"
  by (simp add: measure_stat_def Let_def max_if)

lemma measure_stat_maxinode:
  "maxinode (measure_stat sp a) = max (maxinode a) (st_ino sp)"
  by (simp add: measure_stat_def Let_def max_if)

lemma measure_stat_maxnlink:
  "maxnlink (measure_stat sp a) = max (maxnlink a) (st_nlink sp)"
  by (simp add: measure_stat_def Let_def max_if)

lemma measure_stat_maxsize:
  "sint (maxsize (measure_stat sp a)) = max (sint (maxsize a)) (sint (st_size sp))"
  by (simp add: measure_stat_def Let_def max_if)

lemma measure_owner_fields:
  "maxlen (measure_owner env g sp a) = maxlen a \<and>
   maxblock (measure_owner env g sp a) = maxblock a \<and>
   maxinode (measure_owner env g sp a) = maxinode a \<and>
   maxnlink (measure_owner env g sp a) = maxnlink a \<and>
   maxsize (measure_owner env g sp a) = maxsize a \<and>
   a_btotal (measure_owner env g sp a) = a_btotal a \<and>
   maxuser (measure_owner env g sp a) = max (maxuser a) (int (length (user_of env g sp))) \<and>
   maxgroup (measure_owner env g sp a) = max (maxgroup a) (int (length (group_of env g sp))) \<and>
   entries (measure_owner env g sp a) = entries a"
  by (simp add: measure_owner_def Let_def max_if)

lemma measure_device_fields:
  "maxlen (measure_device sp a) = maxlen a \<and>
   maxblock (measure_device sp a) = maxblock a \<and>
   maxinode (measure_device sp a) = maxinode a \<and>
   maxnlink (measure_device sp a) = maxnlink a \<and>
   maxsize (measure_device sp a) = maxsize a \<and>
   a_btotal (measure_device sp a) = a_btotal a \<and>
   maxuser (measure_device sp a) = maxuser a \<and>
   maxgroup (measure_device sp a) = maxgroup a \<and>
   entries (measure_device sp a) = entries a"
  by (simp add: measure_device_def)

lemma count_entry_fields:
  "maxlen (count_entry a) = maxlen a \<and>
   maxblock (count_entry a) = maxblock a \<and>
   maxinode (count_entry a) = maxinode a \<and>
   maxnlink (count_entry a) = maxnlink a \<and>
   maxsize (count_entry a) = maxsize a \<and>
   a_btotal (count_entry a) = a_btotal a \<and>
   maxuser (count_entry a) = maxuser a \<and>
   maxgroup (count_entry a) = maxgroup a \<and>
   entries (count_entry a) = entries a + 1"
  by (simp add: count_entry_def)

lemmas measure_fields =
  measure_name_fields measure_stat_maxlen measure_stat_maxuser measure_stat_maxgroup
  measure_stat_entries measure_stat_btotal measure_stat_maxblock measure_stat_maxinode
  measure_stat_maxnlink measure_stat_maxsize measure_owner_fields measure_device_fields
  count_entry_fields

lemma maxlen_contribute: "maxlen (contribute env g cur a) = max (maxlen a) (fts_namelen cur)"
  by (simp add: contribute_def Let_def measure_fields)

lemma entries_contribute: "entries (contribute env g cur a) = entries a + 1"
  by (simp add: contribute_def Let_def measure_fields)

lemma maxblock_contribute:
  "needstats g \<Longrightarrow> sint (maxblock (contribute env g cur a)) =
     max (sint (maxblock a)) (sint (st_blocks (fts_statp cur)))"
  by (simp add: contribute_def Let_def measure_fields)

lemma maxinode_contribute:
  "needstats g \<Longrightarrow> maxinode (contribute env g cur a) = max (maxinode a) (st_ino (fts_statp cur))"
  by (simp add: contribute_def Let_def measure_fields)

lemma maxnlink_contribute:
  "needstats g \<Longrightarrow> maxnlink (contribute env g cur a) = max (maxnlink a) (st_nlink (fts_statp cur))"
  by (simp add: contribute_def Let_def measure_fields)

lemma maxsize_contribute:
  "needstats g \<Longrightarrow> sint (maxsize (contribute env g cur a)) =
     max (sint (maxsize a)) (sint (st_size (fts_statp cur)))"
  by (simp add: contribute_def Let_def measure_fields)

lemma btotal_contribute:
  "needstats g \<Longrightarrow> a_btotal (contribute env g cur a) = a_btotal a + st_blocks (fts_statp cur)"
  by (simp add: contribute_def Let_def measure_fields)

lemma maxuser_contribute:
  "needstats g \<Longrightarrow> f_longform g \<noteq> 0 \<Longrightarrow> maxuser (contribute env g cur a) =
     max (maxuser a) (int (length (user_of env g (fts_statp cur))))"
  by (simp add: contribute_def Let_def measure_fields)

lemma maxgroup_contribute:
  "needstats g \<Longrightarrow> f_longform g \<noteq> 0 \<Longrightarrow> maxgroup (contribute env g cur a) =
     max (maxgroup a) (int (length (group_of env g (fts_statp cur))))"
  by (simp add: contribute_def Let_def measure_fields)

lemma unat_of_nonneg_sint:
  fixes w :: "64 word"
  assumes "0 \<le> sint w"
  shows "unat w = nat (sint w)"
proof -
  have u: "uint w = take_bit 64 (sint w)" using uint_sint [of w] by simp
  have "sint w < 2 ^ 63" using sint_lt [of w] by simp
  then have "sint w < 2 ^ 64" by simp
  with assms have "take_bit 64 (sint w) = sint w" by (simp add: take_bit_int_eq_self)
  with u have "uint w = sint w" by simp
  then show ?thesis by (simp add: unat_eq_nat_uint del: nat_uint_eq)
qed

lemma Max_insert_max:
  fixes x y :: "'a::linorder"
  assumes "finite A"
  shows "Max (insert (max x y) A) = Max (insert x (insert y A))"
proof (cases "A = {}")
  case True
  then show ?thesis by (simp add: max.commute)
next
  case False
  with assms show ?thesis by (simp add: max.assoc)
qed

lemma fold_running_max:
  fixes m :: "'s \<Rightarrow> 'a::linorder"
  assumes "\<And>x a. m (f x a) = max (m a) (k x)"
  shows "m (fold f xs a) = Max (insert (m a) (k ` set xs))"
proof (induction xs arbitrary: a)
  case Nil
  then show ?case by simp
next
  case (Cons x xs)
  have "m (fold f (x # xs) a) = Max (insert (max (m a) (k x)) (k ` set xs))"
    using Cons.IH [of "f x a"] assms by simp
  also have "\<dots> = Max (insert (m a) (insert (k x) (k ` set xs)))"
    by (rule Max_insert_max) simp
  finally show ?case by simp
qed

lemma fold_running_sum:
  fixes m :: "'s \<Rightarrow> 'a::comm_monoid_add"
  assumes "\<And>x a. m (f x a) = m a + k x"
  shows "m (fold f xs a) = m a + sum_list (map k xs)"
proof (induction xs arbitrary: a)
  case Nil
  then show ?case by simp
next
  case (Cons x xs)
  show ?case using Cons.IH [of "f x a"] assms by (simp add: add.assoc)
qed

lemma free_settings:
  "same_settings g (free ptr g) \<and> stdout_log (free ptr g) = stdout_log g \<and>
   stderr_log (free ptr g) = stderr_log g \<and> rval (free ptr g) = rval g \<and>
   output (free ptr g) = output g \<and> fts_skip_log (free ptr g) = fts_skip_log g"
  by (simp add: free_def same_settings_def split: option.splits)

lemma free_annotations_settings:
  "same_settings g (free_annotations lst g) \<and>
   stdout_log (free_annotations lst g) = stdout_log g \<and>
   stderr_log (free_annotations lst g) = stderr_log g \<and>
   rval (free_annotations lst g) = rval g \<and>
   output (free_annotations lst g) = output g \<and>
   fts_skip_log (free_annotations lst g) = fts_skip_log g"
proof (induction lst arbitrary: g)
  case Nil
  then show ?case by simp
next
  case (Cons cur rest)
  show ?case
    using Cons.IH [of "free (fts_pointer cur) g"] free_settings [of g "fts_pointer cur"]
      same_settings_trans [of g "free (fts_pointer cur) g"]
    by simp
qed

lemma display_rendered:
  assumes "stdout_log (snd (display env p lst g)) = stdout_log g @ [Rendered pf d]"
  shows "\<exists>lst1 a g1. display_loop env (p = None) lst agg0 g = Inr (lst1, a, g1) \<and>
           d = make_display g1 lst1 a \<and> entries a \<noteq> 0 \<and> pf = printfcn g1"
proof (cases "lst = []")
  case True
  with assms show ?thesis by (simp add: display_def)
next
  case False
  show ?thesis
  proof (cases "display_loop env (p = None) lst agg0 g")
    case (Inl t)
    then obtain lst1 g1 where l: "display_loop env (p = None) lst agg0 g = Inl (lst1, g1)"
      by (cases t) auto
    from display_loop_Inl [OF l] assms False l show ?thesis by (simp add: display_def)
  next
    case (Inr t)
    then obtain lst1 a g1 where l: "display_loop env (p = None) lst agg0 g = Inr (lst1, a, g1)"
      by (cases t) auto
    note f = display_loop_Inr [OF l]
    show ?thesis
    proof (cases "entries a = 0")
      case True
      with f assms False l show ?thesis by (simp add: display_def)
    next
      case ne: False
      with f assms False l show ?thesis
        by (simp add: display_def Let_def free_annotations_settings split: if_splits)
    qed
  qed
qed

lemma agg0_fields:
  "maxlen agg0 = 0 \<and> maxblock agg0 = 0 \<and> maxinode agg0 = 0 \<and> maxnlink agg0 = 0 \<and>
   maxsize agg0 = 0 \<and> a_btotal agg0 = 0 \<and> maxuser agg0 = 0 \<and> maxgroup agg0 = 0 \<and>
   entries agg0 = 0"
  by (simp add: agg0_def)

lemma fold_contribute_entries:
  "entries (fold (contribute env g) S a) = entries a + int (length S)"
  by (induction S arbitrary: a) (simp_all add: entries_contribute)

lemma Max_insert_0_nonneg:
  fixes A :: "int set"
  assumes "finite A"
  shows "0 \<le> Max (insert 0 A)"
  using assms by (simp add: Max_ge_iff)

lemma Max_insert_least:
  fixes A :: "'a::linorder set"
  assumes "finite A" and "A \<noteq> {}" and "\<forall>x\<in>A. z \<le> x"
  shows "Max (insert z A) = Max A"
proof -
  from assms(2) obtain x where x: "x \<in> A" by blast
  with assms have "z \<le> x" "x \<le> Max A" by simp_all
  then have "z \<le> Max A" by (rule order_trans)
  with assms(1,2) show ?thesis by (simp add: max_absorb2)
qed

lemma nat_Max_insert_0:
  fixes A :: "int set"
  assumes "finite A" and "A \<noteq> {}"
  shows "nat (Max (insert 0 A)) = nat (Max A)"
proof -
  from assms have "Max (insert 0 A) = max 0 (Max A)" by (rule Max_insert)
  then show ?thesis by (simp only: max_def nat_0 nat_le_0 split: if_splits) auto
qed

text \<open>
  C6. Whenever the display pass hands a descriptor to the renderer, the descriptor is
  computed from exactly the surviving entries of the sibling list: there is at least one,
  the entry count is their number, the name width is the maximum of their name lengths,
  and, when statistics are needed, the block total is the sum of their block counts (in the
  64-bit arithmetic of the counter), the widths of the block, inode, link and size columns
  are the numbers of decimal digits of the maxima of those fields over them (a negative
  maximum of a signed field counts as 0), and in long format the widths of the owner and
  group columns are the maxima of the lengths of their resolved names. An entry marked
  do-not-print does not occur in any of these expressions.
\<close>

theorem display_aggregates:
  assumes "stdout_log (snd (display env p lst g)) = stdout_log g @ [Rendered pf d]"
  shows "surviving g (p = None) lst \<noteq> [] \<and>
     d_entries d = int (length (surviving g (p = None) lst)) \<and>
     d_maxlen d = Max (fts_namelen ` set (surviving g (p = None) lst)) \<and>
     (case d_stats d of
        None \<Rightarrow> \<not> needstats g
      | Some st \<Rightarrow>
          needstats g \<and>
          btotal st = sum_list (map (\<lambda>cur. st_blocks (fts_statp cur)) (surviving g (p = None) lst)) \<and>
          s_block st = length (umaxtostr (nat (Max
            ((\<lambda>cur. sint (st_blocks (fts_statp cur))) ` set (surviving g (p = None) lst))))) \<and>
          s_inode st = length (umaxtostr (unat (Max
            ((\<lambda>cur. st_ino (fts_statp cur)) ` set (surviving g (p = None) lst))))) \<and>
          s_nlink st = length (umaxtostr (unat (Max
            ((\<lambda>cur. st_nlink (fts_statp cur)) ` set (surviving g (p = None) lst))))) \<and>
          s_size st = length (umaxtostr (nat (Max
            ((\<lambda>cur. sint (st_size (fts_statp cur))) ` set (surviving g (p = None) lst))))) \<and>
          (f_longform g \<noteq> 0 \<longrightarrow>
             s_user st = Max ((\<lambda>cur. int (length (user_of env g (fts_statp cur)))) `
                  set (surviving g (p = None) lst)) \<and>
             s_group st = Max ((\<lambda>cur. int (length (group_of env g (fts_statp cur)))) `
                  set (surviving g (p = None) lst))))"
proof -
  define S where "S = surviving g (p = None) lst"
  from display_rendered [OF assms] obtain lst1 a g1 where
    l: "display_loop env (p = None) lst agg0 g = Inr (lst1, a, g1)"
    and d: "d = make_display g1 lst1 a" and nz: "entries a \<noteq> 0" by blast
  from display_loop_Inr [OF l] have a: "a = fold (contribute env g) S agg0"
    and ss: "same_settings g g1" by (simp_all add: S_def)
  have ns: "needstats g1 = needstats g" using ss by (rule same_settings_needstats)
  have e: "entries a = int (length S)"
    by (simp add: a fold_contribute_entries agg0_fields)
  from nz e have ne: "S \<noteq> []" by auto
  have least: "\<And>f :: ftsent \<Rightarrow> 64 word. Max (insert 0 (f ` set S)) = Max (f ` set S)"
    using ne by (intro Max_insert_least) simp_all
  have least_int: "\<And>f :: ftsent \<Rightarrow> nat. Max (insert 0 ((\<lambda>cur. int (f cur)) ` set S)) =
      Max ((\<lambda>cur. int (f cur)) ` set S)"
    using ne by (intro Max_insert_least) simp_all
  have floor: "\<And>f :: ftsent \<Rightarrow> int. nat (Max (insert 0 (f ` set S))) = nat (Max (f ` set S))"
    using ne by (intro nat_Max_insert_0) simp_all
  have ml: "maxlen a = Max (fts_namelen ` set S)"
    unfolding a using fold_running_max [of maxlen "contribute env g" fts_namelen S agg0]
    by (simp add: maxlen_contribute agg0_fields least)
  have stats: "needstats g \<Longrightarrow>
      a_btotal a = sum_list (map (\<lambda>cur. st_blocks (fts_statp cur)) S) \<and>
      unat (maxblock a) = nat (Max ((\<lambda>cur. sint (st_blocks (fts_statp cur))) ` set S)) \<and>
      maxinode a = Max ((\<lambda>cur. st_ino (fts_statp cur)) ` set S) \<and>
      maxnlink a = Max ((\<lambda>cur. st_nlink (fts_statp cur)) ` set S) \<and>
      unat (maxsize a) = nat (Max ((\<lambda>cur. sint (st_size (fts_statp cur))) ` set S))"
  proof -
    assume n: "needstats g"
    have bt: "a_btotal a = sum_list (map (\<lambda>cur. st_blocks (fts_statp cur)) S)"
      unfolding a
      using fold_running_sum [of a_btotal "contribute env g" "\<lambda>cur. st_blocks (fts_statp cur)" S agg0]
      by (simp add: btotal_contribute n agg0_fields)
    have mb: "sint (maxblock a) = Max (insert 0 ((\<lambda>cur. sint (st_blocks (fts_statp cur))) ` set S))"
      unfolding a
      using fold_running_max [of "\<lambda>a. sint (maxblock a)" "contribute env g"
          "\<lambda>cur. sint (st_blocks (fts_statp cur))" S agg0]
      by (simp add: maxblock_contribute n agg0_fields)
    have ms: "sint (maxsize a) = Max (insert 0 ((\<lambda>cur. sint (st_size (fts_statp cur))) ` set S))"
      unfolding a
      using fold_running_max [of "\<lambda>a. sint (maxsize a)" "contribute env g"
          "\<lambda>cur. sint (st_size (fts_statp cur))" S agg0]
      by (simp add: maxsize_contribute n agg0_fields)
    have mi: "maxinode a = Max ((\<lambda>cur. st_ino (fts_statp cur)) ` set S)"
      unfolding a
      using fold_running_max [of maxinode "contribute env g" "\<lambda>cur. st_ino (fts_statp cur)" S agg0]
      by (simp add: maxinode_contribute n agg0_fields least)
    have mn: "maxnlink a = Max ((\<lambda>cur. st_nlink (fts_statp cur)) ` set S)"
      unfolding a
      using fold_running_max [of maxnlink "contribute env g" "\<lambda>cur. st_nlink (fts_statp cur)" S agg0]
      by (simp add: maxnlink_contribute n agg0_fields least)
    have "0 \<le> sint (maxblock a)" unfolding mb by (rule Max_insert_0_nonneg) simp
    then have "unat (maxblock a) = nat (sint (maxblock a))" by (rule unat_of_nonneg_sint)
    then have ub: "unat (maxblock a) = nat (Max ((\<lambda>cur. sint (st_blocks (fts_statp cur))) ` set S))"
      unfolding mb floor .
    have "0 \<le> sint (maxsize a)" unfolding ms by (rule Max_insert_0_nonneg) simp
    then have "unat (maxsize a) = nat (sint (maxsize a))" by (rule unat_of_nonneg_sint)
    then have us: "unat (maxsize a) = nat (Max ((\<lambda>cur. sint (st_size (fts_statp cur))) ` set S))"
      unfolding ms floor .
    show ?thesis using bt mi mn ub us by simp
  qed
  have long: "needstats g \<Longrightarrow> f_longform g \<noteq> 0 \<Longrightarrow>
      maxuser a = Max ((\<lambda>cur. int (length (user_of env g (fts_statp cur)))) ` set S) \<and>
      maxgroup a = Max ((\<lambda>cur. int (length (group_of env g (fts_statp cur)))) ` set S)"
  proof -
    assume n: "needstats g" and lf: "f_longform g \<noteq> 0"
    have mu: "maxuser a = Max (insert 0 ((\<lambda>cur. int (length (user_of env g (fts_statp cur)))) ` set S))"
      unfolding a
      using fold_running_max [of maxuser "contribute env g"
          "\<lambda>cur. int (length (user_of env g (fts_statp cur)))" S agg0]
      by (simp add: maxuser_contribute n lf agg0_fields)
    have mg: "maxgroup a = Max (insert 0 ((\<lambda>cur. int (length (group_of env g (fts_statp cur)))) ` set S))"
      unfolding a
      using fold_running_max [of maxgroup "contribute env g"
          "\<lambda>cur. int (length (group_of env g (fts_statp cur)))" S agg0]
      by (simp add: maxgroup_contribute n lf agg0_fields)
    show ?thesis
      using mu mg least_int [of "\<lambda>cur. length (user_of env g (fts_statp cur))"]
        least_int [of "\<lambda>cur. length (group_of env g (fts_statp cur))"]
      by simp
  qed
  show ?thesis
  proof (cases "needstats g")
    case False
    with ne e ml ns show ?thesis unfolding d S_def [symmetric] by (simp add: make_display_def)
  next
    case True
    with ne e ml ns stats long show ?thesis
      unfolding d S_def [symmetric] by (simp add: make_display_def)
  qed
qed

lemma umaxtostr_digits:
  "length (umaxtostr 1) = 1 \<and> length (umaxtostr 16) = 2 \<and> length (umaxtostr 2000) = 4 \<and>
   length (umaxtostr 0) = 1"
  by (simp add: umaxtostr.simps)

theorem display_aggregates_witness:
  "stdout_log (snd (display example_env None [root_dir, root_file, root_file2, root_error]
      long_state)) = stdout_log long_state @ [Rendered Printlong example_descriptor] \<and>
   surviving long_state (None = (None :: ftsent option))
       [root_dir, root_file, root_file2, root_error] \<noteq> [] \<and>
   d_entries example_descriptor =
     int (length (surviving long_state (None = (None :: ftsent option))
       [root_dir, root_file, root_file2, root_error])) \<and>
   d_maxlen example_descriptor =
     Max (fts_namelen ` set (surviving long_state (None = (None :: ftsent option))
       [root_dir, root_file, root_file2, root_error])) \<and>
   surviving long_state (None = (None :: ftsent option))
       [root_dir, root_file, root_file2, root_error] = [root_file, root_file2]"
proof -
  have h: "stdout_log (snd (display example_env None [root_dir, root_file, root_file2, root_error]
      long_state)) = stdout_log long_state @ [Rendered Printlong example_descriptor]"
    by (simp add: run_defs long_state_def example_descriptor_def mark_no_print_def
        root_dir_def root_file_def root_file2_def root_error_def umaxtostr.simps)
  have s: "surviving long_state (None = (None :: ftsent option))
       [root_dir, root_file, root_file2, root_error] = [root_file, root_file2]"
    by (simp add: surviving_def suppressed_def unreadable_def long_state_def initial_state_def
        root_dir_def root_file_def root_file2_def root_error_def example_entry_def)
  show ?thesis
    using h s display_aggregates [OF h] by simp
qed

lemma display_entry_suppressed:
  "suppressed g pn cur \<Longrightarrow>
     display_entry env pn cur a g =
       Inr (mark_no_print cur, a,
            if unreadable cur
            then g\<lparr>stderr_log := stderr_log g @ [Node_error (fts_name cur) (fts_errno cur)],
                   rval := 1\<rparr>
            else g)"
  by (auto simp: display_entry_def suppressed_def unreadable_def mark_no_print_def)

lemma display_loop_none_survive:
  "surviving g pn lst = [] \<Longrightarrow>
     display_loop env pn lst a g =
       Inr (map mark_no_print lst, a,
            g\<lparr>stderr_log := stderr_log g @ node_errors lst,
               rval := (if node_errors lst = [] then rval g else 1)\<rparr>)"
proof (induction lst arbitrary: g)
  case Nil
  then show ?case by (simp add: node_errors_def)
next
  case (Cons cur rest)
  from Cons.prems have sup: "suppressed g pn cur" and rest: "surviving g pn rest = []"
    by (simp_all add: surviving_def split: if_splits)
  show ?case
  proof (cases "unreadable cur")
    case True
    define g1 where "g1 = g\<lparr>stderr_log := stderr_log g @ [Node_error (fts_name cur) (fts_errno cur)],
                   rval := 1\<rparr>"
    have "same_settings g g1" by (simp add: g1_def same_settings_def)
    with rest have "surviving g1 pn rest = []" by (simp add: same_settings_surviving)
    from Cons.IH [OF this] True sup show ?thesis
      by (simp add: display_entry_suppressed g1_def [symmetric])
         (simp add: g1_def node_errors_def)
  next
    case False
    from Cons.IH [OF rest] False sup show ?thesis
      by (simp add: display_entry_suppressed node_errors_def)
  qed
qed

text \<open>
  C9 (amended). When no entry of the sibling list survives (the list may be empty), the
  display pass returns without calling the renderer: every entry is marked do-not-print,
  and the state is the one before the call except that each error or not-stat-able entry
  has been reported on the error channel and, if there was one, the failure status is 1.
  Nothing is written to standard output, the "anything printed" flag keeps its value, and
  when the list holds no error or not-stat-able entry the state is unchanged.
\<close>

theorem display_none_survive:
  assumes "surviving g (p = None) lst = []"
  shows "fst (display env p lst g) = map mark_no_print lst \<and>
         snd (display env p lst g) =
           g\<lparr>stderr_log := stderr_log g @ node_errors lst,
              rval := (if node_errors lst = [] then rval g else 1)\<rparr> \<and>
         (node_errors lst = [] \<longrightarrow> snd (display env p lst g) = g)"
proof (cases "lst = []")
  case True
  then show ?thesis by (simp add: display_def node_errors_def)
next
  case False
  with display_loop_none_survive [OF assms, of env agg0] show ?thesis
    by (simp add: display_def agg0_fields)
qed

text \<open>
  The claim as stated fails on a list that holds one error entry: no entry survives, and
  the call sets the failure status and writes a report.
\<close>

theorem display_none_survive_counterexample:
  "surviving plain_state True [root_error] = [] \<and>
   rval plain_state = 0 \<and> stderr_log plain_state = [] \<and>
   rval (snd (display example_env None [root_error] plain_state)) = 1 \<and>
   stderr_log (snd (display example_env None [root_error] plain_state)) = [Node_error ''bad'' 13]"
  by (simp add: display_def display_entry_def surviving_def suppressed_def unreadable_def
      root_error_def example_entry_def plain_state_def initial_state_def agg0_def)

theorem display_none_survive_witness:
  "surviving plain_state (None = (None :: ftsent option)) [root_dir, root_error] = [] \<and>
   fst (display example_env None [root_dir, root_error] plain_state) =
     [mark_no_print root_dir, mark_no_print root_error] \<and>
   stdout_log (snd (display example_env None [root_dir, root_error] plain_state)) = [] \<and>
   output (snd (display example_env None [root_dir, root_error] plain_state)) = 0 \<and>
   rval (snd (display example_env None [root_dir, root_error] plain_state)) = 1"
proof -
  have h: "surviving plain_state (None = (None :: ftsent option)) [root_dir, root_error] = []"
    by (simp add: surviving_def suppressed_def unreadable_def root_dir_def root_error_def
        example_entry_def plain_state_def initial_state_def)
  have n: "node_errors [root_dir, root_error] = [Node_error ''bad'' 13]"
    by (simp add: node_errors_def unreadable_def root_dir_def root_error_def example_entry_def)
  show ?thesis
    using h display_none_survive [OF h, of example_env]
    by (simp add: n plain_state_def initial_state_def)
qed

section \<open>Error reports and the exit status\<close>

lemma accountedI:
  assumes "stderr_log g1 = stderr_log g @ msgs"
    and "rval g1 \<noteq> 0 \<longleftrightarrow> rval g \<noteq> 0 \<or> (\<exists>m\<in>set msgs. \<not> is_cycle m)"
  shows "accounted g g1"
  using assms by (simp add: accounted_def new_errors_def)

lemma accounted_same:
  "stderr_log g1 = stderr_log g \<Longrightarrow> rval g1 = rval g \<Longrightarrow> accounted g g1"
  by (simp add: accounted_def new_errors_def)

lemma accounted_trans:
  assumes "accounted g g1" and "accounted g1 g2"
  shows "accounted g g2"
proof -
  from assms obtain m1 m2 where
    1: "stderr_log g1 = stderr_log g @ m1" "new_errors g g1 = m1"
    and 2: "stderr_log g2 = stderr_log g1 @ m2" "new_errors g1 g2 = m2"
    by (auto simp: accounted_def)
  have "stderr_log g2 = stderr_log g @ (m1 @ m2)" using 1 2 by simp
  moreover have "rval g2 \<noteq> 0 \<longleftrightarrow> rval g \<noteq> 0 \<or> (\<exists>m\<in>set (m1 @ m2). \<not> is_cycle m)"
    using assms 1 2 by (auto simp: accounted_def)
  ultimately show ?thesis by (rule accountedI)
qed

lemma display_entry_Inr_accounted:
  "display_entry env pn cur a g = Inr (c, a1, g1) \<Longrightarrow> accounted g g1"
  by (auto simp: display_entry_def Let_def
      split: if_splits sum.splits dest!: annotate_Inr_settings
      intro: accounted_same accountedI [where msgs = "[Node_error (fts_name cur) (fts_errno cur)]"])

lemma display_entry_Inl_accounted:
  "display_entry env pn cur a g = Inl g1 \<Longrightarrow> accounted g g1"
  by (auto simp: display_entry_def Let_def EXIT_FAILURE_def
      split: if_splits sum.splits dest!: annotate_Inl_settings
      intro: accountedI [where msgs = "[Malloc_failed]"])

lemma display_loop_accounted:
  "(display_loop env pn lst a g = Inr (lst1, a1, g1) \<longrightarrow> accounted g g1) \<and>
   (display_loop env pn lst a g = Inl (lst1, g1) \<longrightarrow> accounted g g1)"
proof (induction lst arbitrary: a g lst1)
  case Nil
  then show ?case by (simp add: accounted_same)
next
  case (Cons cur rest)
  show ?case
  proof (cases "display_entry env pn cur a g")
    case (Inl g2)
    with display_entry_Inl_accounted [OF Inl] show ?thesis by auto
  next
    case (Inr t)
    then obtain c a2 g2 where e: "display_entry env pn cur a g = Inr (c, a2, g2)"
      by (cases t) auto
    note s = display_entry_Inr_accounted [OF e]
    show ?thesis
      using e Cons.IH [of a2 g2] accounted_trans [OF s]
      by (auto split: sum.splits prod.splits)
  qed
qed

lemma display_accounted: "accounted g (snd (display env p lst g))"
proof (cases "lst = []")
  case True
  then show ?thesis by (simp add: display_def accounted_same)
next
  case False
  show ?thesis
  proof (cases "display_loop env (p = None) lst agg0 g")
    case (Inl t)
    then obtain lst1 g1 where l: "display_loop env (p = None) lst agg0 g = Inl (lst1, g1)"
      by (cases t) auto
    with display_loop_accounted [of env "p = None" lst agg0 g] False show ?thesis
      by (simp add: display_def)
  next
    case (Inr t)
    then obtain lst1 a g1 where l: "display_loop env (p = None) lst agg0 g = Inr (lst1, a, g1)"
      by (cases t) auto
    from display_loop_accounted [of env "p = None" lst agg0 g] l
    have acc: "accounted g g1" by simp
    define g2 where "g2 = g1\<lparr>stdout_log := stdout_log g1 @ [Rendered (printfcn g1) (make_display g1 lst1 a)],
                       output := 1\<rparr>"
    have a2: "accounted g1 g2" by (simp add: g2_def accounted_same)
    have a3: "accounted g2 (free_annotations lst1 g2)"
      by (simp add: accounted_same free_annotations_settings)
    from acc a2 a3 have "accounted g g2" "accounted g (free_annotations lst1 g2)"
      by (blast intro: accounted_trans)+
    with acc l False show ?thesis
      by (simp add: display_def Let_def g2_def [symmetric])
  qed
qed

lemma traverse_event_accounted: "accounted g (traverse_event env argc cho ev g)"
proof -
  let ?p = "ev_node ev"
  show ?thesis
  proof (cases "fts_info ?p = FTS_D")
    case True
    show ?thesis
    proof (cases "first_is_dot (fts_name ?p) \<and> fts_level ?p \<noteq> FTS_ROOTLEVEL \<and> f_listdot g = 0")
      case True
      with \<open>fts_info ?p = FTS_D\<close> show ?thesis
        by (simp add: traverse_event_def accounted_same)
    next
      case False
      define g1 where "g1 = (if output g \<noteq> 0 then
                       g\<lparr>stdout_log := stdout_log g @ [Header_after_newline (fts_path ?p)]\<rparr>
                     else if argc > 1 then
                       g\<lparr>stdout_log := stdout_log g @ [Header (fts_path ?p)], output := 1\<rparr>
                     else g)"
      define g2 where "g2 = snd (display env (Some ?p) (ev_children ev cho) g1)"
      have a1: "accounted g g1" by (simp add: g1_def accounted_same)
      have a2: "accounted g1 g2" unfolding g2_def by (rule display_accounted)
      have a3: "accounted g2 (g2\<lparr>fts_skip_log := fts_skip_log g2 @ [fts_path ?p]\<rparr>)"
        by (simp add: accounted_same)
      from a1 a2 a3 have "accounted g g2"
        "accounted g (g2\<lparr>fts_skip_log := fts_skip_log g2 @ [fts_path ?p]\<rparr>)"
        by (blast intro: accounted_trans)+
      with False \<open>fts_info ?p = FTS_D\<close> show ?thesis
        by (auto simp: traverse_event_def Let_def g1_def [symmetric] g2_def [symmetric])
    qed
  next
    case False
    then show ?thesis
      by (auto simp: traverse_event_def Let_def
          intro: accounted_same accountedI [where msgs = "[Dir_cycle (fts_name ?p)]"]
            accountedI [where msgs = "[Node_error (fts_name ?p) (fts_errno ?p)]"])
  qed
qed

lemma traverse_loop_accounted: "accounted g (traverse_loop env argc cho evs g)"
proof (induction evs arbitrary: g)
  case Nil
  then show ?case by (simp add: accounted_same)
next
  case (Cons ev evs)
  show ?case
    using traverse_event_accounted [of g env argc cho ev]
      Cons.IH [of "traverse_event env argc cho ev g"]
    by (auto intro: accounted_trans)
qed









text \<open>
  What is reported: the error channel only grows, each cycle, unreadable-directory and
  error event is reported when the traversal loop reads it, and each error or
  not-stat-able entry of a sibling list is reported by the display pass unless a failed
  allocation ends the pass before.
\<close>

lemma accounted_mono: "accounted g g1 \<Longrightarrow> set (stderr_log g) \<subseteq> set (stderr_log g1)"
proof -
  assume "accounted g g1"
  then have "stderr_log g1 = stderr_log g @ new_errors g g1" by (simp add: accounted_def)
  then have "set (stderr_log g1) = set (stderr_log g) \<union> set (new_errors g g1)"
    by (metis set_append)
  then show ?thesis by blast
qed

lemma traverse_event_reports:
  "(fts_info (ev_node ev) = FTS_DC \<longrightarrow>
      Dir_cycle (fts_name (ev_node ev)) \<in> set (stderr_log (traverse_event env argc cho ev g))) \<and>
   (fts_info (ev_node ev) = FTS_DNR \<or> fts_info (ev_node ev) = FTS_ERR \<longrightarrow>
      Node_error (fts_name (ev_node ev)) (fts_errno (ev_node ev)) \<in>
        set (stderr_log (traverse_event env argc cho ev g)) \<and>
      rval (traverse_event env argc cho ev g) = 1)"
  by (auto simp: traverse_event_def Let_def)

lemma traverse_loop_mono:
  "set (stderr_log g) \<subseteq> set (stderr_log (traverse_loop env argc cho evs g))"
  using traverse_loop_accounted [of g env argc cho evs] by (rule accounted_mono)

lemma traverse_loop_reports:
  assumes "ev \<in> set evs"
  shows "(fts_info (ev_node ev) = FTS_DC \<longrightarrow>
      Dir_cycle (fts_name (ev_node ev)) \<in> set (stderr_log (traverse_loop env argc cho evs g))) \<and>
   (fts_info (ev_node ev) = FTS_DNR \<or> fts_info (ev_node ev) = FTS_ERR \<longrightarrow>
      Node_error (fts_name (ev_node ev)) (fts_errno (ev_node ev)) \<in>
        set (stderr_log (traverse_loop env argc cho evs g)))"
  using assms
proof (induction evs arbitrary: g)
  case Nil
  then show ?case by simp
next
  case (Cons e evs)
  show ?case
  proof (cases "ev = e")
    case True
    with traverse_event_reports [of ev env argc cho g]
      traverse_loop_mono [of "traverse_event env argc cho e g" env argc cho evs]
    show ?thesis by auto
  next
    case False
    with Cons.prems have "ev \<in> set evs" by simp
    from Cons.IH [OF this, of "traverse_event env argc cho e g"] show ?thesis by simp
  qed
qed

lemma display_loop_Inr_reports:
  "display_loop env pn lst a g = Inr (lst1, a1, g1) \<Longrightarrow> cur \<in> set lst \<Longrightarrow>
     unreadable cur \<Longrightarrow> Node_error (fts_name cur) (fts_errno cur) \<in> set (stderr_log g1)"
proof (induction lst arbitrary: a g lst1)
  case Nil
  then show ?case by simp
next
  case (Cons c rest)
  from Cons.prems(1) obtain c1 a2 g2 rest1 where
    e: "display_entry env pn c a g = Inr (c1, a2, g2)"
    and l: "display_loop env pn rest a2 g2 = Inr (rest1, a1, g1)"
    by (auto split: sum.splits prod.splits)
  show ?case
  proof (cases "cur = c")
    case True
    with Cons.prems(3) e have "Node_error (fts_name cur) (fts_errno cur) \<in> set (stderr_log g2)"
      by (auto simp: display_entry_def unreadable_def)
    moreover from display_loop_accounted [of env pn rest a2 g2 rest1 a1 g1] l
    have "set (stderr_log g2) \<subseteq> set (stderr_log g1)" by (simp add: accounted_mono)
    ultimately show ?thesis by blast
  next
    case False
    with Cons.prems(2) have "cur \<in> set rest" by simp
    from Cons.IH [OF l this Cons.prems(3)] show ?thesis .
  qed
qed

text \<open>
  What is not reported. The switch of the traversal loop has no case for a not-stat-able
  node: in a recursive long listing, such a node below a hidden directory is never shown
  to the display pass, is read by the loop without a report, and the run returns 0 with an
  empty error channel.
\<close>

theorem ls_main_unreported_node:
  "ls_main example_cs example_env hidden_fts ''lR'' [''src''] initial_state =
     Inr (0, snd (projr (ls_main example_cs example_env hidden_fts ''lR'' [''src'']
       initial_state))) \<and>
   stderr_log (snd (projr (ls_main example_cs example_env hidden_fts ''lR'' [''src'']
       initial_state))) = []"
  by (simp add: run_defs hidden_fts_def root_dir_def hidden_dir_def hidden_child_def)

text \<open>
  The display pass returns at the failed allocation: the not-stat-able entry behind the
  entry whose annotation could not be built gets no report of its own.
\<close>

theorem display_unreported_after_failed_allocation:
  "stderr_log (snd (display example_env None [root_file, root_nostat]
     (long_state\<lparr>malloc_script := [False]\<rparr>))) = [Malloc_failed]"
  by (simp add: run_defs long_state_def root_file_def root_nostat_def)

section \<open>State kept between calls, and the failed allocation\<close>

text \<open>
  C3. Two calls in one process. After a call that met an error, a call on an error-free
  walk reports nothing and still returns 1, where the same call in a fresh process returns
  0; after a call with option \<^verbatim>\<open>-S\<close>, a call without it still selects the size
  comparator, where the same call in a fresh process selects the name comparator. The claim
  says an earlier call has no influence.
\<close>

theorem ls_main_keeps_state_between_calls:
  "\<not> isl (ls_main example_cs example_env error_fts [] [''README'', ''gone''] initial_state) \<and>
   \<not> isl (ls_main example_cs example_env clean_fts ''S'' [''README'', ''TODO''] initial_state) \<and>
   ls_main example_cs example_env clean_fts [] [''README'', ''TODO'']
     (snd (projr (ls_main example_cs example_env error_fts [] [''README'', ''gone'']
        initial_state))) =
     Inr (1, snd (projr (ls_main example_cs example_env clean_fts [] [''README'', ''TODO'']
       (snd (projr (ls_main example_cs example_env error_fts [] [''README'', ''gone'']
          initial_state)))))) \<and>
   new_errors
     (snd (projr (ls_main example_cs example_env error_fts [] [''README'', ''gone'']
        initial_state)))
     (snd (projr (ls_main example_cs example_env clean_fts [] [''README'', ''TODO'']
       (snd (projr (ls_main example_cs example_env error_fts [] [''README'', ''gone'']
          initial_state)))))) = [] \<and>
   ls_main example_cs example_env clean_fts [] [''README'', ''TODO''] initial_state =
     Inr (0, snd (projr (ls_main example_cs example_env clean_fts [] [''README'', ''TODO'']
       initial_state))) \<and>
   sortfcn (snd (projr (ls_main example_cs example_env clean_fts [] [''README'', ''TODO'']
       initial_state))) = Namecmp \<and>
   sortfcn (snd (projr (ls_main example_cs example_env clean_fts [] [''README'', ''TODO'']
       (snd (projr (ls_main example_cs example_env clean_fts ''S'' [''README'', ''TODO'']
          initial_state)))))) = Sizecmp"
  by (simp add: run_defs new_errors_def error_fts_def clean_fts_def root_file_def root_file2_def
      root_nostat_def)

theorem ls_main_keeps_state_between_calls_witness:
  "ls_main example_cs example_env clean_fts [] [''README'', ''TODO'']
     (snd (projr (ls_main example_cs example_env error_fts [] [''README'', ''gone'']
        initial_state))) \<noteq>
   ls_main example_cs example_env clean_fts [] [''README'', ''TODO''] initial_state"
proof
  let ?second = "ls_main example_cs example_env clean_fts [] [''README'', ''TODO'']
     (snd (projr (ls_main example_cs example_env error_fts [] [''README'', ''gone'']
        initial_state)))"
  let ?fresh = "ls_main example_cs example_env clean_fts [] [''README'', ''TODO''] initial_state"
  assume e: "?second = ?fresh"
  note t = ls_main_keeps_state_between_calls
  from t have a: "?second = Inr (1, snd (projr ?second))" by blast
  from t have b: "?fresh = Inr (0, snd (projr ?fresh))" by blast
  from arg_cong [OF a, of "\<lambda>r. fst (projr r)"] have "fst (projr ?second) = 1" by simp
  moreover from arg_cong [OF b, of "\<lambda>r. fst (projr r)"] have "fst (projr ?fresh) = 0" by simp
  ultimately show False unfolding e by simp
qed

text \<open>
  A long listing that shows at least one entry and in which no allocation fails leaves the
  heap as it found it, when the entries arrive without annotation pointers and every
  allocated address lies below the allocation mark.
\<close>

lemma annotation_pointers_Cons:
  "annotation_pointers (cur # rest) =
     (case fts_pointer cur of None \<Rightarrow> {} | Some np \<Rightarrow> {np}) \<union> annotation_pointers rest"
  by (auto simp: annotation_pointers_def split: option.splits)

lemma heap_free_annotations:
  "heap (free_annotations lst g) = heap g |` (- annotation_pointers lst)"
proof (induction lst arbitrary: g)
  case Nil
  then show ?case by (simp add: annotation_pointers_def)
next
  case (Cons cur rest)
  show ?case
    by (cases "fts_pointer cur")
      (auto simp: Cons.IH annotation_pointers_Cons free_def restrict_map_def fun_eq_iff)
qed

lemma display_entry_Inr_heap:
  assumes "display_entry env pn cur a g = Inr (c, a1, g1)" and "fts_pointer cur = None"
  shows "brk g \<le> brk g1 \<and>
     (case fts_pointer c of None \<Rightarrow> {} | Some np \<Rightarrow> {np}) \<subseteq> {brk g ..< brk g1} \<and>
     (\<forall>x. x < brk g \<longrightarrow> heap g1 x = heap g x) \<and>
     dom (heap g1) \<subseteq> dom (heap g) \<union> (case fts_pointer c of None \<Rightarrow> {} | Some np \<Rightarrow> {np})"
  using assms
  by (auto simp: display_entry_def annotate_def malloc_def Let_def
      split: if_splits sum.splits prod.splits option.splits list.splits)

lemma display_loop_Inr_heap:
  assumes "display_loop env pn lst a g = Inr (lst1, a1, g1)"
    and "\<forall>cur\<in>set lst. fts_pointer cur = None"
  shows "brk g \<le> brk g1 \<and>
     annotation_pointers lst1 \<subseteq> {brk g ..< brk g1} \<and>
     (\<forall>x. x < brk g \<longrightarrow> heap g1 x = heap g x) \<and>
     dom (heap g1) \<subseteq> dom (heap g) \<union> annotation_pointers lst1"
  using assms
proof (induction lst arbitrary: a g lst1)
  case Nil
  then show ?case by (simp add: annotation_pointers_def)
next
  case (Cons cur rest)
  from Cons.prems(1) obtain c a2 g2 rest1 where
    e: "display_entry env pn cur a g = Inr (c, a2, g2)"
    and l: "display_loop env pn rest a2 g2 = Inr (rest1, a1, g1)"
    and r: "lst1 = c # rest1"
    by (auto split: sum.splits prod.splits)
  from Cons.prems(2) have n: "fts_pointer cur = None" and ns: "\<forall>cur\<in>set rest. fts_pointer cur = None"
    by simp_all
  note h1 = display_entry_Inr_heap [OF e n]
  note h2 = Cons.IH [OF l ns]
  let ?P = "case fts_pointer c of None \<Rightarrow> {} | Some np \<Rightarrow> {np}"
  have b: "brk g \<le> brk g1" using h1 h2 by linarith
  have p: "annotation_pointers lst1 \<subseteq> {brk g ..< brk g1}"
    unfolding r annotation_pointers_Cons using h1 h2 by fastforce
  have k: "\<forall>x. x < brk g \<longrightarrow> heap g1 x = heap g x"
    using h1 h2 by force
  have d: "dom (heap g1) \<subseteq> dom (heap g) \<union> annotation_pointers lst1"
    unfolding r annotation_pointers_Cons using h1 h2 by blast
  from b p k d show ?case by simp
qed

lemma display_keeps_heap:
  assumes ok: "\<not> isl (display_loop env (p = None) lst agg0 g)"
    and fresh: "\<forall>cur\<in>set lst. fts_pointer cur = None"
    and inv: "dom (heap g) \<subseteq> {..< brk g}"
    and long: "f_longform g \<noteq> 0"
    and shown: "surviving g (p = None) lst \<noteq> []"
  shows "heap (snd (display env p lst g)) = heap g"
proof -
  from ok obtain lst1 a g1 where
    l: "display_loop env (p = None) lst agg0 g = Inr (lst1, a, g1)"
    by (cases "display_loop env (p = None) lst agg0 g") auto
  note f = display_loop_Inr [OF l]
  note h = display_loop_Inr_heap [OF l fresh]
  from shown have ne: "lst \<noteq> []" by (auto simp: surviving_def)
  from f shown have en: "entries a \<noteq> 0"
    by (simp add: fold_contribute_entries agg0_fields)
  from f long have lf: "f_longform g1 \<noteq> 0" by (simp add: same_settings_def)
  have "heap (snd (display env p lst g)) = heap g1 |` (- annotation_pointers lst1)"
    using l ne en lf by (simp add: display_def Let_def heap_free_annotations)
  also have "\<dots> = heap g"
  proof (rule ext)
    fix x
    show "(heap g1 |` (- annotation_pointers lst1)) x = heap g x"
    proof (cases "x \<in> annotation_pointers lst1")
      case True
      with h have "brk g \<le> x" by auto
      with inv have "heap g x = None" by (auto simp: dom_def)
      with True show ?thesis by simp
    next
      case False
      show ?thesis
      proof (cases "x < brk g")
        case True
        with h False show ?thesis by simp
      next
        case ge: False
        with inv have n: "heap g x = None" by (auto simp: dom_def)
        with h False have "x \<notin> dom (heap g1)" by (auto simp: dom_def)
        with n False show ?thesis by (simp add: dom_def)
      qed
    qed
  qed
  finally show ?thesis .
qed

text \<open>
  C5. A long listing of two files in which the second allocation fails: the display pass
  returns after the report of the failure, nothing is rendered, and the annotation built
  for the first file is still allocated, with the first entry still pointing to it. The
  claim says no annotation is left allocated on this path.
\<close>

theorem display_leaks_on_failed_allocation:
  "heap (long_state\<lparr>malloc_script := [True, False]\<rparr>) 0 = None \<and>
   heap (snd (display example_env None [root_file, root_file2]
     (long_state\<lparr>malloc_script := [True, False]\<rparr>))) 0 =
     Some \<lparr>user = ''root'', group = ''wheel'', flags = None\<rparr> \<and>
   map fts_pointer (fst (display example_env None [root_file, root_file2]
     (long_state\<lparr>malloc_script := [True, False]\<rparr>))) = [Some 0, None] \<and>
   stdout_log (snd (display example_env None [root_file, root_file2]
     (long_state\<lparr>malloc_script := [True, False]\<rparr>))) = [] \<and>
   stderr_log (snd (display example_env None [root_file, root_file2]
     (long_state\<lparr>malloc_script := [True, False]\<rparr>))) = [Malloc_failed]"
  by (simp add: run_defs long_state_def root_file_def root_file2_def)

theorem display_leaks_on_failed_allocation_witness:
  "heap (snd (display example_env None [root_file, root_file2]
     (long_state\<lparr>malloc_script := [True, False]\<rparr>))) \<noteq>
   heap (long_state\<lparr>malloc_script := [True, False]\<rparr>)"
proof
  assume e: "heap (snd (display example_env None [root_file, root_file2]
     (long_state\<lparr>malloc_script := [True, False]\<rparr>))) =
   heap (long_state\<lparr>malloc_script := [True, False]\<rparr>)"
  note t = display_leaks_on_failed_allocation
  from t have b: "heap (long_state\<lparr>malloc_script := [True, False]\<rparr>) 0 = None"
    by (rule conjunct1)
  from t have a: "heap (snd (display example_env None [root_file, root_file2]
     (long_state\<lparr>malloc_script := [True, False]\<rparr>))) 0 =
     Some \<lparr>user = ''root'', group = ''wheel'', flags = None\<rparr>"
    by (rule conjunct1 [OF conjunct2])
  from a have "heap (long_state\<lparr>malloc_script := [True, False]\<rparr>) 0 =
     Some \<lparr>user = ''root'', group = ''wheel'', flags = None\<rparr>"
    unfolding e .
  with b show False by simp
qed

section \<open>The no-sort mode\<close>

lemma display_entry_Inr_name:
  "display_entry env pn cur a g = Inr (c, a1, g1) \<Longrightarrow> fts_name c = fts_name cur"
  by (auto simp: display_entry_def annotate_def Let_def
      split: if_splits sum.splits prod.splits option.splits)

lemma display_loop_Inr_names:
  "display_loop env pn lst a g = Inr (lst1, a1, g1) \<Longrightarrow> map fts_name lst1 = map fts_name lst"
proof (induction lst arbitrary: a g lst1)
  case Nil
  then show ?case by simp
next
  case (Cons cur rest)
  from Cons.prems obtain c a2 g2 rest1 where
    e: "display_entry env pn cur a g = Inr (c, a2, g2)"
    and l: "display_loop env pn rest a2 g2 = Inr (rest1, a1, g1)"
    and r: "lst1 = c # rest1"
    by (auto split: sum.splits prod.splits)
  from Cons.IH [OF l] display_entry_Inr_name [OF e] r show ?case by simp
qed

lemma display_rendered_names:
  assumes "stdout_log (snd (display env p lst g)) = stdout_log g @ [Rendered pf d]"
  shows "map fts_name (d_list d) = map fts_name lst"
proof -
  from display_rendered [OF assms] obtain lst1 a g1 where
    l: "display_loop env (p = None) lst agg0 g = Inr (lst1, a, g1)"
    and d: "d = make_display g1 lst1 a" by blast
  from display_loop_Inr_names [OF l] d show ?thesis by (simp add: make_display_def)
qed

text \<open>
  C10. In no-sort mode the walk is opened with the null comparator: the traversal is the
  one obtained when the primitive is never given a comparator, it is the same for every
  choice of field comparators, and a rendered descriptor lists the names in the order of
  the sibling list the primitive returned.
\<close>

theorem nosort_opens_without_comparator:
  assumes "f_nosort g \<noteq> 0"
  shows "compar cs g = None \<and>
     traverse cs env fts_open argc argv options g =
       traverse cs env (\<lambda>roots opts c. fts_open roots opts None) argc argv options g \<and>
     traverse cs env fts_open argc argv options g =
       traverse cs2 env fts_open argc argv options g \<and>
     (stdout_log (snd (display env p lst g)) = stdout_log g @ [Rendered pf d] \<longrightarrow>
        map fts_name (d_list d) = map fts_name lst)"
  using assms display_rendered_names [of env p lst g pf d]
  by (simp add: compar_def traverse_def)

theorem nosort_opens_without_comparator_witness:
  "f_nosort (plain_state\<lparr>f_nosort := 1\<rparr>) \<noteq> 0 \<and>
   compar example_cs (plain_state\<lparr>f_nosort := 1\<rparr>) = None \<and>
   stdout_log (traverse example_cs example_env sorting_fts 2 [''TODO'', ''README'']
       {FTS_PHYSICAL, FTS_NOCHDIR} (plain_state\<lparr>f_nosort := 1\<rparr>)) =
     [Rendered Printscol
        \<lparr>d_list = [root_file2, root_file], d_entries = 2, d_maxlen = 6, d_stats = None\<rparr>] \<and>
   stdout_log (traverse example_cs example_env sorting_fts 2 [''TODO'', ''README'']
       {FTS_PHYSICAL, FTS_NOCHDIR} plain_state) =
     [Rendered Printscol
        \<lparr>d_list = [root_file, root_file2], d_entries = 2, d_maxlen = 6, d_stats = None\<rparr>]"
proof -
  have h: "f_nosort (plain_state\<lparr>f_nosort := 1\<rparr>) \<noteq> 0" by simp
  have a: "stdout_log (traverse example_cs example_env
       (\<lambda>roots opts c. sorting_fts roots opts None) 2 [''TODO'', ''README'']
       {FTS_PHYSICAL, FTS_NOCHDIR} (plain_state\<lparr>f_nosort := 1\<rparr>)) =
     [Rendered Printscol
        \<lparr>d_list = [root_file2, root_file], d_entries = 2, d_maxlen = 6, d_stats = None\<rparr>]"
    by (simp add: run_defs plain_state_def sorting_fts_def root_file_def root_file2_def)
  have b: "stdout_log (traverse example_cs example_env sorting_fts 2 [''TODO'', ''README'']
       {FTS_PHYSICAL, FTS_NOCHDIR} plain_state) =
     [Rendered Printscol
        \<lparr>d_list = [root_file, root_file2], d_entries = 2, d_maxlen = 6, d_stats = None\<rparr>]"
    by (simp add: run_defs plain_state_def sorting_fts_def root_file_def root_file2_def
        mastercmp_def by_name_def strcmp_def)
  show ?thesis
    using h a b
      nosort_opens_without_comparator [OF h, of example_cs example_env sorting_fts 2
        "[''TODO'', ''README'']" "{FTS_PHYSICAL, FTS_NOCHDIR}"]
    by simp
qed

end
